theory Spec2Isabelle
  imports Main "HOL-Library.Multiset" "HOL-Library.AList"
begin

section \<open>JavaScript strings\<close>

text \<open>
  A JavaScript string is modelled as a \<^typ>\<open>string\<close>: the list of its code units, one
  \<^typ>\<open>char\<close> each. \<open>indexOf\<close>, \<open>slice\<close>, \<open>split_on\<close> and \<open>join\<close> work on any list, so
  nothing proved about them depends on the width of a code unit.
\<close>

text \<open>
  \<^verbatim>\<open>s.indexOf(pat)\<close>: the least index at which \<open>pat\<close> starts in \<open>s\<close>, and \<open>-1\<close> when there
  is none.
\<close>

fun indexOf :: "'a list \<Rightarrow> 'a list \<Rightarrow> int" where
  "indexOf [] pat = (if pat = [] then 0 else - 1)"
| "indexOf (x # xs) pat =
     (if take (length pat) (x # xs) = pat then 0
      else (let i = indexOf xs pat in if i < 0 then - 1 else i + 1))"

text \<open>
  \<^verbatim>\<open>s.slice(start, end)\<close>: a negative index counts from the end of the string, and both
  indices are clamped to the string.
\<close>

definition slice :: "'a list \<Rightarrow> int \<Rightarrow> int \<Rightarrow> 'a list" where
  "slice s start end' =
     (let len = int (length s);
          from = (if start < 0 then max (len + start) 0 else min start len);
          to = (if end' < 0 then max (len + end') 0 else min end' len)
      in take (nat (to - from)) (drop (nat from) s))"

text \<open>
  \<^verbatim>\<open>s.split(sep)\<close> for a separator of one code unit: the pieces between the separators,
  always at least one piece.
\<close>

fun split_on :: "'a \<Rightarrow> 'a list \<Rightarrow> 'a list list" where
  "split_on sep [] = [[]]"
| "split_on sep (x # xs) =
     (if x = sep then [] # split_on sep xs
      else (case split_on sep xs of
              p # ps \<Rightarrow> (x # p) # ps
            | [] \<Rightarrow> [[x]]))"

text \<open>\<^verbatim>\<open>pieces.join(sep)\<close>.\<close>

fun join :: "'a list \<Rightarrow> 'a list list \<Rightarrow> 'a list" where
  "join sep [] = []"
| "join sep [p] = p"
| "join sep (p # q # ps) = p @ sep @ join sep (q # ps)"

text \<open>
  \<^verbatim>\<open>s.trim()\<close>: the white space and line terminators of ECMAScript that fit a
  \<^typ>\<open>char\<close> (tab, line feed, vertical tab, form feed, carriage return, space,
  no-break space) are removed at both ends.
\<close>

definition is_space :: "char \<Rightarrow> bool" where
  "is_space c \<longleftrightarrow> c \<in> set [CHR 0x09, CHR 0x0A, CHR 0x0B, CHR 0x0C, CHR 0x0D, CHR 0x20, CHR 0xA0]"

definition trim :: "string \<Rightarrow> string" where
  "trim s = rev (dropWhile is_space (rev (dropWhile is_space s)))"

text \<open>A count as a template literal prints it: its decimal digits.\<close>

function show_nat :: "nat \<Rightarrow> string" where
  "show_nat n =
     (if n < 10 then [char_of (48 + n)]
      else show_nat (n div 10) @ [char_of (48 + n mod 10)])"
  by pat_completeness auto
termination
  by (relation "measure id") auto

subsection \<open>Percent-encoding\<close>

definition hex_digit :: "nat \<Rightarrow> char" where
  "hex_digit n = (if n < 10 then char_of (48 + n) else char_of (55 + n))"

definition percent_byte :: "nat \<Rightarrow> string" where
  "percent_byte b = [CHR ''%'', hex_digit (b div 16), hex_digit (b mod 16)]"

text \<open>The UTF-8 bytes of a code unit below 256.\<close>

definition utf8_bytes :: "char \<Rightarrow> nat list" where
  "utf8_bytes c =
     (let n = (of_char c :: nat)
      in if n < 128 then [n] else [192 + n div 64, 128 + n mod 64])"

definition is_alnum :: "char \<Rightarrow> bool" where
  "is_alnum c \<longleftrightarrow>
     c \<in> set ''ABCDEFGHIJKLMNOPQRSTUVWXYZabcdefghijklmnopqrstuvwxyz0123456789''"

text \<open>
  \<^verbatim>\<open>encodeURIComponent(s)\<close>: letters, digits and \<^verbatim>\<open>- _ . ! ~ * ' ( )\<close> stay, every other
  code unit becomes the percent-encoded bytes of its UTF-8 form.
\<close>

definition encodeURIComponent :: "string \<Rightarrow> string" where
  "encodeURIComponent s =
     concat (map (\<lambda>c. if is_alnum c \<or> c \<in> set (''-_.!~*()'' @ [CHR 0x27]) then [c]
                        else concat (map percent_byte (utf8_bytes c))) s)"

text \<open>
  The \<^verbatim>\<open>application/x-www-form-urlencoded\<close> serialiser of \<^verbatim>\<open>URLSearchParams\<close>: letters,
  digits and \<^verbatim>\<open>* - . _\<close> stay, a space becomes \<^verbatim>\<open>+\<close>, every other code unit is
  percent-encoded.
\<close>

definition form_urlencode :: "string \<Rightarrow> string" where
  "form_urlencode s =
     concat (map (\<lambda>c. if is_alnum c \<or> c \<in> set ''*-._'' then [c]
                        else if c = CHR '' '' then ''+''
                        else concat (map percent_byte (utf8_bytes c))) s)"

section \<open>Industry derivation\<close>

text \<open>
  The flat-file server:
  \<^verbatim>\<open>
  function pickIndustryFromCampaign(campaign = "") {
    const idx = campaign.indexOf("_v");
    if (idx > 0) return campaign.slice(0, idx);
    return "";
  }\<close>
\<close>

definition pickIndustryFromCampaign :: "string \<Rightarrow> string" where
  "pickIndustryFromCampaign campaign =
     (let idx = indexOf campaign ''_v''
      in if idx > 0 then slice campaign 0 idx else '''')"

text \<open>
  The sqlite server:
  \<^verbatim>\<open>
  function getIndustryFromCampaign(campaign) {
    if (!campaign) return "";
    const idx = campaign.indexOf("_");
    return idx === -1 ? campaign : campaign.slice(0, idx);
  }\<close>
\<close>

definition getIndustryFromCampaign :: "string \<Rightarrow> string" where
  "getIndustryFromCampaign campaign =
     (if campaign = '''' then ''''
      else (let idx = indexOf campaign ''_''
            in if idx = - 1 then campaign else slice campaign 0 idx))"

text \<open>
  What the specification speaks of: \<open>sep\<close> occurs in \<open>s\<close>, and \<open>pre\<close> is the part of \<open>s\<close>
  before the first occurrence of \<open>sep\<close>.
\<close>

definition occurs_in :: "'a list \<Rightarrow> 'a list \<Rightarrow> bool" where
  "occurs_in sep s \<longleftrightarrow> (\<exists>pre post. s = pre @ sep @ post)"

definition before_first :: "'a list \<Rightarrow> 'a list \<Rightarrow> 'a list \<Rightarrow> bool" where
  "before_first sep s pre \<longleftrightarrow>
     (\<exists>post. s = pre @ sep @ post) \<and>
     (\<forall>pre' post'. s = pre' @ sep @ post' \<longrightarrow> length pre \<le> length pre')"

section \<open>JavaScript values\<close>

text \<open>
  The values \<^verbatim>\<open>JSON.parse\<close> returns, and \<^verbatim>\<open>undefined\<close>. A number is held as the string
  \<^verbatim>\<open>String(n)\<close> gives for it: two numbers are the same member of a \<^verbatim>\<open>Set\<close> exactly when
  these strings are equal, and a number is falsy exactly when the string is \<^verbatim>\<open>0\<close> or
  \<^verbatim>\<open>NaN\<close>. An object is held as its own properties in creation order.
\<close>

datatype jsval =
    JUndefined
  | JNull
  | JBool bool
  | JNum string
  | JStr string
  | JArr "jsval list"
  | JObj "(string \<times> jsval) list"

datatype js_error =
    TypeError
  | SystemError string  \<comment> \<open>a file system error and its \<^verbatim>\<open>code\<close>\<close>
  | Error string

fun error_code :: "js_error \<Rightarrow> string option" where
  "error_code (SystemError c) = Some c"
| "error_code _ = None"

fun truthy :: "jsval \<Rightarrow> bool" where
  "truthy JUndefined = False"
| "truthy JNull = False"
| "truthy (JBool b) = b"
| "truthy (JNum n) = (n \<noteq> ''0'' \<and> n \<noteq> ''NaN'')"
| "truthy (JStr s) = (s \<noteq> '''')"
| "truthy (JArr xs) = True"
| "truthy (JObj kvs) = True"

text \<open>\<^verbatim>\<open>a || b\<close>.\<close>

definition js_or :: "jsval \<Rightarrow> jsval \<Rightarrow> jsval" where
  "js_or a b = (if truthy a then a else b)"

fun nullish :: "jsval \<Rightarrow> bool" where
  "nullish JUndefined = True"
| "nullish JNull = True"
| "nullish _ = False"

fun is_primitive :: "jsval \<Rightarrow> bool" where
  "is_primitive (JArr xs) = False"
| "is_primitive (JObj kvs) = False"
| "is_primitive _ = True"

text \<open>
  \<^verbatim>\<open>e.k\<close> for the property names the server reads (\<^verbatim>\<open>type\<close>, \<^verbatim>\<open>campaign\<close>, \<^verbatim>\<open>lead_id\<close>),
  which no prototype defines: an own property of an object, \<^verbatim>\<open>undefined\<close> otherwise. On
  \<^verbatim>\<open>null\<close> and \<^verbatim>\<open>undefined\<close> the read throws; every caller checks \<open>nullish\<close> first.
\<close>

fun field :: "jsval \<Rightarrow> string \<Rightarrow> jsval" where
  "field (JObj kvs) k = (case map_of kvs k of Some v \<Rightarrow> v | None \<Rightarrow> JUndefined)"
| "field _ k = JUndefined"

text \<open>The first error among the results, or else all their values.\<close>

fun collect :: "(js_error + string) list \<Rightarrow> js_error + string list" where
  "collect [] = Inr []"
| "collect (Inl err # rs) = Inl err"
| "collect (Inr p # rs) = (case collect rs of Inl err \<Rightarrow> Inl err | Inr ps \<Rightarrow> Inr (p # ps))"

text \<open>
  The conversion of a value to a property key (\<^verbatim>\<open>obj[v]\<close>). An array is joined with
  commas, \<^verbatim>\<open>null\<close> and \<^verbatim>\<open>undefined\<close> elements as empty strings. A parsed object gives
  \<^verbatim>\<open>[object Object]\<close>, unless it has an own property \<^verbatim>\<open>toString\<close>, which is not callable:
  then the conversion throws a \<^verbatim>\<open>TypeError\<close>.
\<close>

fun ToPropertyKey :: "jsval \<Rightarrow> js_error + string" where
  "ToPropertyKey JUndefined = Inr ''undefined''"
| "ToPropertyKey JNull = Inr ''null''"
| "ToPropertyKey (JBool b) = Inr (if b then ''true'' else ''false'')"
| "ToPropertyKey (JNum n) = Inr n"
| "ToPropertyKey (JStr s) = Inr s"
| "ToPropertyKey (JArr xs) =
     (case collect (map (\<lambda>x. if nullish x then Inr '''' else ToPropertyKey x) xs) of
        Inl e \<Rightarrow> Inl e
      | Inr ps \<Rightarrow> Inr (join '','' ps))"
| "ToPropertyKey (JObj kvs) =
     (if ''toString'' \<in> fst ` set kvs then Inl TypeError else Inr ''[object Object]'')"

text \<open>
  A value of \<^verbatim>\<open>req.query\<close>: a string, an array or an object, as the query parser builds
  them. \<^verbatim>\<open>String(v)\<close> joins an array with commas and gives \<^verbatim>\<open>[object Object]\<close> for an object,
  unless the object has an own property \<^verbatim>\<open>toString\<close> (the extended parser builds one for
  \<^verbatim>\<open>c[toString]=1\<close>), which is not callable: then \<^verbatim>\<open>String(v)\<close> throws a \<^verbatim>\<open>TypeError\<close>.
\<close>

datatype qval = QStr string | QArr "qval list" | QObj "(string \<times> qval) list"

fun String_q :: "qval \<Rightarrow> js_error + string" where
  "String_q (QStr s) = Inr s"
| "String_q (QArr xs) =
     (case collect (map String_q xs) of
        Inl err \<Rightarrow> Inl err
      | Inr ps \<Rightarrow> Inr (join '','' ps))"
| "String_q (QObj kvs) =
     (if ''toString'' \<in> fst ` set kvs then Inl TypeError else Inr ''[object Object]'')"

text \<open>
  \<^verbatim>\<open>String(q || "")\<close> for a query value that may be absent: the empty string for an absent or
  empty value, \<^verbatim>\<open>String(q)\<close> otherwise, which can throw.
\<close>

fun String_or_empty :: "qval option \<Rightarrow> js_error + string" where
  "String_or_empty None = Inr ''''"
| "String_or_empty (Some (QStr s)) = Inr s"
| "String_or_empty (Some v) = String_q v"

text \<open>\<^verbatim>\<open>h || ""\<close> for a string that may be \<^verbatim>\<open>undefined\<close>.\<close>

fun or_empty :: "string option \<Rightarrow> string" where
  "or_empty None = ''''"
| "or_empty (Some s) = s"

text \<open>
  A plain object used as a dictionary is the list of its own properties in creation order;
  \<^verbatim>\<open>obj[k] = v\<close> is \<^const>\<open>AList.update\<close>. These are the names every plain object inherits
  from \<^verbatim>\<open>Object.prototype\<close>: reading one of them from a dictionary that has no own property
  of that name gives the inherited member, which is truthy.
\<close>

definition Object_prototype_names :: "string list" where
  "Object_prototype_names =
     [''constructor'', ''__defineGetter__'', ''__defineSetter__'', ''hasOwnProperty'',
      ''__lookupGetter__'', ''__lookupSetter__'', ''isPrototypeOf'', ''propertyIsEnumerable'',
      ''toString'', ''valueOf'', ''__proto__'', ''toLocaleString'']"

definition is_digit :: "char \<Rightarrow> bool" where
  "is_digit c \<longleftrightarrow> c \<in> set ''0123456789''"

definition decimal_value :: "string \<Rightarrow> int" where
  "decimal_value s = foldl (\<lambda>n c. 10 * n + (of_char c - 48)) 0 s"

text \<open>An array index: the canonical decimal string of a number below \<open>2\<^sup>3\<^sup>2 - 1\<close>.\<close>

definition is_array_index :: "string \<Rightarrow> bool" where
  "is_array_index s \<longleftrightarrow>
     s \<noteq> [] \<and> list_all is_digit s \<and> (s = ''0'' \<or> hd s \<noteq> CHR ''0'') \<and>
     decimal_value s < 2 ^ 32 - 1"

text \<open>
  \<^verbatim>\<open>Object.keys(obj)\<close>: the array indices in ascending order, then the other names in
  creation order.
\<close>

definition Object_keys :: "(string \<times> 'v) list \<Rightarrow> string list" where
  "Object_keys obj =
     (let ks = map fst obj
      in sort_key decimal_value (filter is_array_index ks) @
         filter (\<lambda>k. \<not> is_array_index k) ks)"

text \<open>
  \<^verbatim>\<open>set.add(v)\<close> on the members in insertion order. A string, number, boolean, \<^verbatim>\<open>null\<close> or
  \<^verbatim>\<open>undefined\<close> is a member once; an array or object is compared by identity, and every
  parsed line is an object of its own, so it is always a new member.
\<close>

definition Set_add :: "jsval list \<Rightarrow> jsval \<Rightarrow> jsval list" where
  "Set_add s v = (if is_primitive v \<and> v \<in> set s then s else s @ [v])"

section \<open>The platform\<close>

text \<open>
  What the servers call and do not define: the digest of \<^verbatim>\<open>crypto\<close> (which can throw),
  \<^verbatim>\<open>JSON.stringify\<close>, \<^verbatim>\<open>JSON.parse\<close> (\<open>None\<close> when it throws a \<^verbatim>\<open>SyntaxError\<close>) and the
  parser of \<^verbatim>\<open>new URL\<close> (\<open>None\<close> when it throws a \<^verbatim>\<open>TypeError\<close>). Every theorem holds for
  all of them.
\<close>

record url =
  url_head :: string  \<comment> \<open>scheme, authority and path\<close>
  searchParams :: "(string \<times> string) list"
  url_hash :: string  \<comment> \<open>the fragment with its \<^verbatim>\<open>#\<close>, or empty\<close>

record platform =
  sha256_hex :: "string \<Rightarrow> js_error + string"
  JSON_stringify :: "jsval \<Rightarrow> string"
  JSON_parse :: "string \<Rightarrow> jsval option"
  URL_parse :: "string \<Rightarrow> url option"

text \<open>
  \<^verbatim>\<open>url.searchParams.set(name, value)\<close>: the first pair of that name takes the value and the
  others of that name are removed; without one, the pair is appended.
\<close>

fun searchParams_set :: "(string \<times> string) list \<Rightarrow> string \<Rightarrow> string \<Rightarrow> (string \<times> string) list" where
  "searchParams_set [] name v = [(name, v)]"
| "searchParams_set ((k, w) # ps) name v =
     (if k = name then (name, v) # filter (\<lambda>p. fst p \<noteq> name) ps
      else (k, w) # searchParams_set ps name v)"

text \<open>\<^verbatim>\<open>url.toString()\<close> once the search parameters have been set.\<close>

definition URL_toString :: "url \<Rightarrow> string" where
  "URL_toString u =
     url_head u @
     (if searchParams u = [] then ''''
      else ''?'' @ join ''&'' (map (\<lambda>(k, v). form_urlencode k @ ''='' @ form_urlencode v)
                                 (searchParams u))) @
     url_hash u"

section \<open>Requests and responses\<close>

record request =
  params_lead_id :: string  \<comment> \<open>\<^verbatim>\<open>req.params.lead_id\<close>\<close>
  query_c :: "qval option"  \<comment> \<open>\<^verbatim>\<open>req.query.c\<close>\<close>
  query_lid :: "qval option"  \<comment> \<open>\<^verbatim>\<open>req.query.lid\<close>\<close>
  header_user_agent :: "string option"
  header_x_forwarded_for :: "string option"
  socket_remoteAddress :: "string option"
  req_ip :: "string option"  \<comment> \<open>\<^verbatim>\<open>req.ip\<close>\<close>

datatype body = Text string | Buffer_base64 string

datatype response =
    Redirect nat string  \<comment> \<open>\<^verbatim>\<open>res.redirect(status, url)\<close>\<close>
  | Send nat "(string \<times> string) list" body  \<comment> \<open>status, headers set, \<^verbatim>\<open>res.send(body)\<close>\<close>
  | End nat  \<comment> \<open>\<^verbatim>\<open>res.status(n).end()\<close>\<close>

text \<open>
  A handler is an \<^verbatim>\<open>async\<close> function: it either sends a response (\<open>Inr\<close>) or its promise
  is rejected with an error and it sends none (\<open>Inl\<close>). It returns the store as it leaves
  it.
\<close>

section \<open>The flat-file server\<close>

subsection \<open>The events file\<close>

text \<open>
  The file at \<^verbatim>\<open>EVENTS_PATH\<close>: its content (\<open>None\<close> while it does not exist), the error an
  append fails with, if it fails (read-only or full disk, ...), and the error a read
  fails with for another reason than the file not existing.
\<close>

record fs_state =
  events_file :: "string option"
  append_fault :: "js_error option"
  read_fault :: "js_error option"

definition appendFile :: "fs_state \<Rightarrow> string \<Rightarrow> (js_error + unit) \<times> fs_state" where
  "appendFile fs line =
     (case append_fault fs of
        Some e \<Rightarrow> (Inl e, fs)
      | None \<Rightarrow> (Inr (), fs\<lparr>events_file := Some (or_empty (events_file fs) @ line)\<rparr>))"

definition readFile :: "fs_state \<Rightarrow> js_error + string" where
  "readFile fs =
     (case read_fault fs of
        Some e \<Rightarrow> Inl e
      | None \<Rightarrow> (case events_file fs of
                  None \<Rightarrow> Inl (SystemError ''ENOENT'')
                | Some data \<Rightarrow> Inr data))"

text \<open>
  \<^verbatim>\<open>
  function ipHash(ip) {
    try {
      return crypto.createHash("sha256").update(String(ip || "")).digest("hex").slice(0, 16);
    } catch {
      return "";
    }
  }\<close>
  The handlers pass a string.
\<close>

definition ipHash :: "platform \<Rightarrow> string \<Rightarrow> string" where
  "ipHash P ip =
     (case sha256_hex P ip of
        Inr digest \<Rightarrow> slice digest 0 16
      | Inl e \<Rightarrow> '''')"

text \<open>
  \<^verbatim>\<open>
  async function appendEvent(ev) {
    const line = JSON.stringify(ev) + "\n";
    await fs.promises.appendFile(EVENTS_PATH, line, "utf8");
  }\<close>
\<close>

definition appendEvent :: "platform \<Rightarrow> fs_state \<Rightarrow> jsval \<Rightarrow> (js_error + unit) \<times> fs_state" where
  "appendEvent P fs ev = (let line = JSON_stringify P ev @ [CHR 0x0A] in appendFile fs line)"

text \<open>
  \<^verbatim>\<open>
  async function readEvents() {
    try {
      const data = await fs.promises.readFile(EVENTS_PATH, "utf8");
      return data
        .split("\n")
        .filter(Boolean)
        .map((l) => {
          try { return JSON.parse(l); } catch { return null; }
        })
        .filter(Boolean);
    } catch (e) {
      if (e?.code === "ENOENT") return [];
      throw e;
    }
  }\<close>
\<close>

definition readEvents :: "platform \<Rightarrow> fs_state \<Rightarrow> js_error + jsval list" where
  "readEvents P fs =
     (case readFile fs of
        Inr data \<Rightarrow>
          Inr (filter truthy
                (map (\<lambda>l. case JSON_parse P l of Some v \<Rightarrow> v | None \<Rightarrow> JNull)
                  (filter (\<lambda>l. l \<noteq> '''') (split_on (CHR 0x0A) data))))
      | Inl e \<Rightarrow> if error_code e = Some ''ENOENT'' then Inr [] else Inl e)"

subsection \<open>The tracking routes\<close>

text \<open>
  \<^verbatim>\<open>req.headers["x-forwarded-for"]?.toString().split(",")[0]?.trim()
    || req.socket.remoteAddress || ""\<close>
\<close>

definition client_ip :: "request \<Rightarrow> string" where
  "client_ip req =
     (let forwarded =
            (case header_x_forwarded_for req of
               None \<Rightarrow> ''''
             | Some h \<Rightarrow> (case split_on CHR '','' h of p # ps \<Rightarrow> trim p | [] \<Rightarrow> ''''))
      in if forwarded \<noteq> '''' then forwarded else or_empty (socket_remoteAddress req))"

text \<open>
  The event object of \<^verbatim>\<open>app.get("/r/:lead_id")\<close>, once \<^verbatim>\<open>campaign\<close> has been computed; \<open>now\<close>
  is \<^verbatim>\<open>nowIso()\<close>.
\<close>

definition r_ev :: "platform \<Rightarrow> request \<Rightarrow> string \<Rightarrow> string \<Rightarrow> jsval" where
  "r_ev P req campaign now =
     (let lead_id = params_lead_id req;
          industry = pickIndustryFromCampaign campaign;
          ua = or_empty (header_user_agent req);
          ip = client_ip req
      in JObj [(''type'', JStr ''click''),
               (''lead_id'', JStr lead_id),
               (''campaign'', JStr campaign),
               (''industry'', JStr industry),
               (''ts'', JStr now),
               (''user_agent'', JStr ua),
               (''ip_hash'', JStr (ipHash P ip))])"

text \<open>
  \<^verbatim>\<open>
  const lead_id = req.params.lead_id;
  const campaign = String(req.query.c || "");
  ...
  try { await appendEvent(ev); } catch {}
  if (!LANDING_BASE) {
    return res.status(500).send("LANDING_BASE not configured");
  }
  const url = new URL(LANDING_BASE);
  url.searchParams.set("lid", lead_id);
  if (campaign) url.searchParams.set("utm_campaign", campaign);
  url.searchParams.set("utm_source", "coldemail");
  url.searchParams.set("utm_medium", "email");
  url.searchParams.set("c", campaign);
  res.redirect(302, url.toString());\<close>
  The conversion of the query value stands before the \<^verbatim>\<open>try\<close>: when it throws, nothing is
  appended and nothing is sent.
\<close>

definition file_route_r ::
  "platform \<Rightarrow> string \<Rightarrow> request \<Rightarrow> string \<Rightarrow> fs_state \<Rightarrow> (js_error + response) \<times> fs_state" where
  "file_route_r P LANDING_BASE req now fs =
     (let lead_id = params_lead_id req
      in case String_or_empty (query_c req) of
           Inl err \<Rightarrow> (Inl err, fs)
         | Inr c \<Rightarrow>
             (let campaign = c;
                  ev = r_ev P req campaign now;
                  fs' = snd (appendEvent P fs ev)
              in if LANDING_BASE = ''''
                 then (Inr (Send 500 [] (Text ''LANDING_BASE not configured'')), fs')
                 else (case URL_parse P LANDING_BASE of
                         None \<Rightarrow> (Inl TypeError, fs')
                       | Some url \<Rightarrow>
                           (let p1 = searchParams_set (searchParams url) ''lid'' lead_id;
                                p2 = (if campaign \<noteq> ''''
                                      then searchParams_set p1 ''utm_campaign'' campaign else p1);
                                p3 = searchParams_set p2 ''utm_source'' ''coldemail'';
                                p4 = searchParams_set p3 ''utm_medium'' ''email'';
                                p5 = searchParams_set p4 ''c'' campaign
                            in (Inr (Redirect 302 (URL_toString (url\<lparr>searchParams := p5\<rparr>))),
                                fs')))))"


text \<open>The event object of \<^verbatim>\<open>app.get("/o/:lead_id.png")\<close>, once \<^verbatim>\<open>campaign\<close> has been computed.\<close>

definition o_ev :: "platform \<Rightarrow> request \<Rightarrow> string \<Rightarrow> string \<Rightarrow> jsval" where
  "o_ev P req campaign now =
     (let lead_id = params_lead_id req;
          industry = pickIndustryFromCampaign campaign;
          ua = or_empty (header_user_agent req);
          ip = client_ip req
      in JObj [(''type'', JStr ''open''),
               (''lead_id'', JStr lead_id),
               (''campaign'', JStr campaign),
               (''industry'', JStr industry),
               (''ts'', JStr now),
               (''user_agent'', JStr ua),
               (''ip_hash'', JStr (ipHash P ip))])"

definition PIXEL_GIF :: body where
  "PIXEL_GIF = Buffer_base64 ''R0lGODlhAQABAIAAAAAAAP///ywAAAAAAQABAAACAUwAOw==''"

text \<open>
  \<^verbatim>\<open>
  const lead_id = req.params.lead_id;
  const campaign = String(req.query.c || "");
  ...
  try { await appendEvent(ev); } catch {}
  res.setHeader("Content-Type", "image/gif");
  res.setHeader("Cache-Control", "no-store, no-cache, must-revalidate, proxy-revalidate");
  res.status(200).send(PIXEL_GIF);\<close>
\<close>

definition file_route_o ::
  "platform \<Rightarrow> request \<Rightarrow> string \<Rightarrow> fs_state \<Rightarrow> (js_error + response) \<times> fs_state" where
  "file_route_o P req now fs =
     (case String_or_empty (query_c req) of
        Inl err \<Rightarrow> (Inl err, fs)
      | Inr c \<Rightarrow>
          (let campaign = c;
               ev = o_ev P req campaign now;
               fs' = snd (appendEvent P fs ev)
           in (Inr (Send 200 [(''Content-Type'', ''image/gif''),
                              (''Cache-Control'',
                               ''no-store, no-cache, must-revalidate, proxy-revalidate'')]
                      PIXEL_GIF), fs')))"

text \<open>
  The event object of \<^verbatim>\<open>app.get("/conv")\<close>, once \<^verbatim>\<open>lead_id\<close> and \<^verbatim>\<open>campaign\<close> have been
  computed.
\<close>

definition conv_ev :: "platform \<Rightarrow> request \<Rightarrow> string \<Rightarrow> string \<Rightarrow> string \<Rightarrow> jsval" where
  "conv_ev P req lead_id campaign now =
     (let industry = pickIndustryFromCampaign campaign;
          ua = or_empty (header_user_agent req);
          ip = client_ip req
      in JObj [(''type'', JStr ''conv''),
               (''lead_id'', JStr lead_id),
               (''campaign'', JStr campaign),
               (''industry'', JStr industry),
               (''ts'', JStr now),
               (''user_agent'', JStr ua),
               (''ip_hash'', JStr (ipHash P ip))])"

text \<open>
  \<^verbatim>\<open>
  const lead_id = String(req.query.lid || "");
  const campaign = String(req.query.c || "");
  ...
  try { await appendEvent(ev); } catch {}
  res.status(204).end();\<close>
\<close>

definition file_route_conv ::
  "platform \<Rightarrow> request \<Rightarrow> string \<Rightarrow> fs_state \<Rightarrow> (js_error + response) \<times> fs_state" where
  "file_route_conv P req now fs =
     (case String_or_empty (query_lid req) of
        Inl err \<Rightarrow> (Inl err, fs)
      | Inr l \<Rightarrow>
          (case String_or_empty (query_c req) of
             Inl err \<Rightarrow> (Inl err, fs)
           | Inr c \<Rightarrow>
               (let lead_id = l;
                    campaign = c;
                    ev = conv_ev P req lead_id campaign now;
                    fs' = snd (appendEvent P fs ev)
                in (Inr (End 204), fs'))))"

subsection \<open>The stats page\<close>

text \<open>\<^verbatim>\<open>events.filter((e) => e.type === t)\<close>; reading \<^verbatim>\<open>e.type\<close> throws on \<^verbatim>\<open>null\<close>.\<close>

fun filter_type :: "string \<Rightarrow> jsval list \<Rightarrow> js_error + jsval list" where
  "filter_type t [] = Inr []"
| "filter_type t (e # es) =
     (if nullish e then Inl TypeError
      else (case filter_type t es of
              Inl err \<Rightarrow> Inl err
            | Inr r \<Rightarrow> Inr (if field e ''type'' = JStr t then e # r else r)))"

record row =
  campaign :: string
  total' :: nat
  unique :: nat

text \<open>
  The loop of \<open>summarize\<close>, on the two dictionaries:
  \<^verbatim>\<open>
  for (const e of list) {
    const c = e.campaign || "(none)";
    totalsByCampaign[c] = (totalsByCampaign[c] || 0) + 1;
    uniqueByCampaign[c] = uniqueByCampaign[c] || new Set();
    uniqueByCampaign[c].add(e.lead_id);
  }\<close>
  When \<open>c\<close> is a name of \<^verbatim>\<open>Object.prototype\<close>, \<^verbatim>\<open>uniqueByCampaign[c]\<close> is the inherited
  member, which is truthy and has no \<^verbatim>\<open>add\<close>: the call throws a \<^verbatim>\<open>TypeError\<close>.
\<close>

fun summarize_loop ::
  "(string \<times> nat) list \<Rightarrow> (string \<times> jsval list) list \<Rightarrow> jsval list \<Rightarrow>
   js_error + (string \<times> nat) list \<times> (string \<times> jsval list) list" where
  "summarize_loop totalsByCampaign uniqueByCampaign [] = Inr (totalsByCampaign, uniqueByCampaign)"
| "summarize_loop totalsByCampaign uniqueByCampaign (e # list) =
     (if nullish e then Inl TypeError
      else (case ToPropertyKey (js_or (field e ''campaign'') (JStr ''(none)'')) of
              Inl err \<Rightarrow> Inl err
            | Inr c \<Rightarrow>
                if c \<in> set Object_prototype_names then Inl TypeError
                else summarize_loop
                       (AList.update c
                          ((case map_of totalsByCampaign c of Some n \<Rightarrow> n | None \<Rightarrow> 0) + 1)
                          totalsByCampaign)
                       (AList.update c
                          (Set_add (case map_of uniqueByCampaign c of Some s \<Rightarrow> s | None \<Rightarrow> [])
                             (field e ''lead_id''))
                          uniqueByCampaign)
                       list))"

text \<open>
  \<^verbatim>\<open>
  const rows = Object.keys(totalsByCampaign)
    .sort((a, b) => totalsByCampaign[b] - totalsByCampaign[a])
    .map((c) => ({
      campaign: c,
      total: totalsByCampaign[c],
      unique: uniqueByCampaign[c]?.size || 0,
    }));
  return rows;\<close>
  The sort is stable.
\<close>

definition summarize :: "jsval list \<Rightarrow> js_error + row list" where
  "summarize list =
     (case summarize_loop [] [] list of
        Inl err \<Rightarrow> Inl err
      | Inr (totalsByCampaign, uniqueByCampaign) \<Rightarrow>
          Inr (map (\<lambda>c. \<lparr>campaign = c,
                          total' = (case map_of totalsByCampaign c of Some n \<Rightarrow> n | None \<Rightarrow> 0),
                          unique = (case map_of uniqueByCampaign c of Some s \<Rightarrow> length s | None \<Rightarrow> 0)\<rparr>)
                 (sort_key (\<lambda>c. - int (case map_of totalsByCampaign c of Some n \<Rightarrow> n | None \<Rightarrow> 0))
                    (Object_keys totalsByCampaign))))"

definition row_html :: "row \<Rightarrow> string" where
  "row_html r =
     ''<tr><td>'' @ campaign r @ ''</td><td>'' @ show_nat (total' r) @ ''</td><td>'' @
     show_nat (unique r) @ ''</td></tr>''"

text \<open>The page of \<^verbatim>\<open>/stats\<close>: the template with the three tables filled in.\<close>

definition stats_html :: "string \<Rightarrow> row list \<Rightarrow> row list \<Rightarrow> row list \<Rightarrow> string" where
  \<open>stats_html EVENTS_PATH clickRows openRows conversionRows =
     join [CHR 0x0A]
      ['''',
       ''    <html>'',
       ''      <head>'',
       ''        <title>Trippy Tracker Stats</title>'',
       ''        <style>'',
       ''          body { font-family: -apple-system, system-ui, Segoe UI, Roboto, Arial; padding: 24px; }'',
       ''          table { border-collapse: collapse; width: 100%; margin: 12px 0 28px; }'',
       ''          th, td { border: 1px solid #ddd; padding: 8px; text-align: left; }'',
       ''          th { background: #f6f6f6; }'',
       ''          .muted { color: #666; }'',
       ''        </style>'',
       ''      </head>'',
       ''      <body>'',
       ''        <h1>Trippy Tracker Stats</h1>'',
       ''        <p class="muted">Events stored at: '' @ EVENTS_PATH @ ''</p>'',
       '''',
       ''        <h2>Clicks</h2>'',
       ''        <table>'',
       ''          <tr><th>Campaign</th><th>Total</th><th>Unique Leads</th></tr>'',
       ''          '' @ concat (map row_html clickRows),
       ''        </table>'',
       '''',
       ''        <h2>Opens (directional)</h2>'',
       ''        <table>'',
       ''          <tr><th>Campaign</th><th>Total</th><th>Unique Leads</th></tr>'',
       ''          '' @ concat (map row_html openRows),
       ''        </table>'',
       '''',
       ''        <h2>Conversions</h2>'',
       ''        <table>'',
       ''          <tr><th>Campaign</th><th>Total</th><th>Unique Leads</th></tr>'',
       ''          '' @ concat (map row_html conversionRows),
       ''        </table>'',
       ''      </body>'',
       ''    </html>'',
       ''  '']\<close>

text \<open>
  \<^verbatim>\<open>
  app.get("/stats", async (_req, res) => {
    const events = await readEvents();
    const clicks = events.filter((e) => e.type === "click");
    const opens = events.filter((e) => e.type === "open");
    const conversions = events.filter((e) => e.type === "conv");
    ...
    const clickRows = summarize(clicks);
    const openRows = summarize(opens);
    const conversionRows = summarize(conversions);
    res.setHeader("Content-Type", "text/html; charset=utf-8");
    res.send(`...`);
  });\<close>
\<close>

definition file_route_stats :: "platform \<Rightarrow> string \<Rightarrow> fs_state \<Rightarrow> js_error + response" where
  "file_route_stats P EVENTS_PATH fs =
     (case readEvents P fs of Inl err \<Rightarrow> Inl err | Inr events \<Rightarrow>
      case filter_type ''click'' events of Inl err \<Rightarrow> Inl err | Inr clicks \<Rightarrow>
      case filter_type ''open'' events of Inl err \<Rightarrow> Inl err | Inr opens \<Rightarrow>
      case filter_type ''conv'' events of Inl err \<Rightarrow> Inl err | Inr conversions \<Rightarrow>
      case summarize clicks of Inl err \<Rightarrow> Inl err | Inr clickRows \<Rightarrow>
      case summarize opens of Inl err \<Rightarrow> Inl err | Inr openRows \<Rightarrow>
      case summarize conversions of Inl err \<Rightarrow> Inl err | Inr conversionRows \<Rightarrow>
        Inr (Send 200 [(''Content-Type'', ''text/html; charset=utf-8'')]
               (Text (stats_html EVENTS_PATH clickRows openRows conversionRows))))"

subsection \<open>What the store holds and what the report counts\<close>

text \<open>What one line of the events file contributes to the list \<open>readEvents\<close> returns.\<close>

definition line_events :: "platform \<Rightarrow> string \<Rightarrow> jsval list" where
  "line_events P l =
     (if l = '''' then []
      else (case JSON_parse P l of
              None \<Rightarrow> []
            | Some v \<Rightarrow> if truthy v then [v] else []))"

text \<open>
  The key an event is counted under, when the loop of \<open>summarize\<close> gets past the event.
\<close>

definition campaign_key :: "jsval \<Rightarrow> js_error + string" where
  "campaign_key e =
     (if nullish e then Inl TypeError
      else (case ToPropertyKey (js_or (field e ''campaign'') (JStr ''(none)'')) of
              Inl err \<Rightarrow> Inl err
            | Inr c \<Rightarrow> if c \<in> set Object_prototype_names then Inl TypeError else Inr c))"

text \<open>The leads of the events counted under \<open>c\<close>, in the order of the list.\<close>

definition leads_of :: "jsval list \<Rightarrow> string \<Rightarrow> jsval list" where
  "leads_of list c = map (\<lambda>e. field e ''lead_id'') (filter (\<lambda>e. campaign_key e = Inr c) list)"

text \<open>
  The number of distinct leads among \<open>vs\<close>: strings, numbers, booleans, \<^verbatim>\<open>null\<close> and
  \<^verbatim>\<open>undefined\<close> by value, arrays and objects each on its own.
\<close>

definition distinct_leads :: "jsval list \<Rightarrow> nat" where
  "distinct_leads vs =
     card (set (filter is_primitive vs)) + length (filter (\<lambda>v. \<not> is_primitive v) vs)"

text \<open>The row the report has for the key \<open>c\<close>.\<close>

definition report_row :: "jsval list \<Rightarrow> string \<Rightarrow> row" where
  "report_row list c =
     \<lparr>campaign = c,
      total' = length (filter (\<lambda>e. campaign_key e = Inr c) list),
      unique = distinct_leads (leads_of list c)\<rparr>"

text \<open>The total and the unique count that a list of rows gives for a campaign.\<close>

definition counts_for :: "row list \<Rightarrow> string \<Rightarrow> (nat \<times> nat) option" where
  "counts_for rows c = map_of (map (\<lambda>r. (campaign r, (total' r, unique r))) rows) c"

section \<open>The sqlite server\<close>

text \<open>
  The tables \<^verbatim>\<open>clicks\<close> and \<^verbatim>\<open>opens\<close>, each row the six values of its \<^verbatim>\<open>INSERT\<close>, and the
  error a statement fails with, if it fails.
\<close>

datatype table = Clicks | Opens

record db_state =
  clicks :: "string list list"
  opens :: "string list list"
  run_fault :: "js_error option"

text \<open>\<open>run\<close> on an \<^verbatim>\<open>INSERT INTO\<close> statement: the promise is rejected when the statement fails.\<close>

definition run :: "db_state \<Rightarrow> table \<Rightarrow> string list \<Rightarrow> (js_error + unit) \<times> db_state" where
  "run db t params =
     (case run_fault db of
        Some e \<Rightarrow> (Inl e, db)
      | None \<Rightarrow> (Inr (), (case t of
                            Clicks \<Rightarrow> db\<lparr>clicks := clicks db @ [params]\<rparr>
                          | Opens \<Rightarrow> db\<lparr>opens := opens db @ [params]\<rparr>)))"

text \<open>
  \<^verbatim>\<open>
  function hashIp(ip) {
    return crypto.createHash("sha256").update(ip || "").digest("hex");
  }\<close>
\<close>

definition hashIp :: "platform \<Rightarrow> string option \<Rightarrow> js_error + string" where
  "hashIp P ip = sha256_hex P (or_empty ip)"

text \<open>
  \<^verbatim>\<open>
  const leadId = String(req.params.lead_id);
  const campaign = String(req.query.c || "");
  const industry = getIndustryFromCampaign(campaign);
  const ts = new Date().toISOString();
  const ua = req.headers["user-agent"] || "";
  const ipHash = hashIp(req.ip);
  await run("INSERT INTO clicks (...) VALUES (?, ?, ?, ?, ?, ?)",
    [leadId, campaign, industry, ts, ua, ipHash]);
  const landing = LANDING_BASE || "";
  const redirectUrl = landing
    ? `${landing}?lid=${encodeURIComponent(leadId)}&utm_campaign=${encodeURIComponent(campaign)}`
    : `/stats`;
  res.redirect(302, redirectUrl);\<close>
\<close>

definition sqlite_route_r ::
  "platform \<Rightarrow> string \<Rightarrow> request \<Rightarrow> string \<Rightarrow> db_state \<Rightarrow> (js_error + response) \<times> db_state" where
  "sqlite_route_r P LANDING_BASE req now db =
     (let leadId = params_lead_id req
      in case String_or_empty (query_c req) of
           Inl err \<Rightarrow> (Inl err, db)
         | Inr c \<Rightarrow>
             (let campaign = c;
                  industry = getIndustryFromCampaign campaign;
                  ts = now;
                  ua = or_empty (header_user_agent req)
              in case hashIp P (req_ip req) of
                   Inl err \<Rightarrow> (Inl err, db)
                 | Inr ipHash' \<Rightarrow>
                     (case run db Clicks [leadId, campaign, industry, ts, ua, ipHash'] of
                        (Inl err, db') \<Rightarrow> (Inl err, db')
                      | (Inr u, db') \<Rightarrow>
                          (let landing = LANDING_BASE;
                               redirectUrl =
                                 (if landing \<noteq> ''''
                                  then landing @ ''?lid='' @ encodeURIComponent leadId @
                                       ''&utm_campaign='' @ encodeURIComponent campaign
                                  else ''/stats'')
                           in (Inr (Redirect 302 redirectUrl), db')))))"


definition PIXEL_PNG :: body where
  "PIXEL_PNG = Buffer_base64
     ''iVBORw0KGgoAAAANSUhEUgAAAAEAAAABCAQAAAC1HAwCAAAAC0lEQVR42mP8/x8AAwMCAO0G0b8AAAAASUVORK5CYII=''"

definition sqlite_route_o ::
  "platform \<Rightarrow> request \<Rightarrow> string \<Rightarrow> db_state \<Rightarrow> (js_error + response) \<times> db_state" where
  "sqlite_route_o P req now db =
     (let leadId = params_lead_id req
      in case String_or_empty (query_c req) of
           Inl err \<Rightarrow> (Inl err, db)
         | Inr c \<Rightarrow>
             (let campaign = c;
                  industry = getIndustryFromCampaign campaign;
                  ts = now;
                  ua = or_empty (header_user_agent req)
              in case hashIp P (req_ip req) of
                   Inl err \<Rightarrow> (Inl err, db)
                 | Inr ipHash' \<Rightarrow>
                     (case run db Opens [leadId, campaign, industry, ts, ua, ipHash'] of
                        (Inl err, db') \<Rightarrow> (Inl err, db')
                      | (Inr u, db') \<Rightarrow>
                          (Inr (Send 200 [(''Content-Type'', ''image/png''),
                                          (''Cache-Control'',
                                           ''no-store, no-cache, must-revalidate, max-age=0'')]
                                  PIXEL_PNG), db'))))"

section \<open>Sample inputs\<close>

text \<open>
  A platform, a request and two stores on which the theorems are instantiated. The
  platform's digest is a constant string of 64 hexadecimal digits and its parser reads the
  empty object and the number 0 only: the theorems hold for every platform, so these stand
  for any.
\<close>

definition sample_digest :: string where
  "sample_digest = ''0123abcd0123abcd0123abcd0123abcd0123abcd0123abcd0123abcd0123abcd''"

definition sample_platform :: platform where
  "sample_platform =
     \<lparr>sha256_hex = (\<lambda>s. Inr sample_digest),
      JSON_stringify = (\<lambda>v. ''{}''),
      JSON_parse = (\<lambda>s. if s = ''{}'' then Some (JObj [])
                          else if s = ''0'' then Some (JNum ''0'')
                          else None),
      URL_parse = (\<lambda>s. if s = '''' then None
                         else Some \<lparr>url_head = s, searchParams = [], url_hash = ''''\<rparr>)\<rparr>"

text \<open>The same platform with a digest that throws.\<close>

definition failing_hash_platform :: platform where
  "failing_hash_platform = sample_platform\<lparr>sha256_hex := (\<lambda>s. Inl (Error ''Digest method not supported''))\<rparr>"

definition sample_request :: request where
  "sample_request =
     \<lparr>params_lead_id = ''L1'',
      query_c = Some (QStr ''restaurants_v1''),
      query_lid = Some (QStr ''L1''),
      header_user_agent = Some ''Mozilla/5.0'',
      header_x_forwarded_for = Some ''203.0.113.7, 10.0.0.1'',
      socket_remoteAddress = Some ''10.0.0.1'',
      req_ip = Some ''203.0.113.7''\<rparr>"


definition writable_fs :: fs_state where
  "writable_fs = \<lparr>events_file = None, append_fault = None, read_fault = None\<rparr>"


definition working_db :: db_state where
  "working_db = \<lparr>clicks = [], opens = [], run_fault = None\<rparr>"


text \<open>
  Events as the click route stores them: three for the campaign \<open>a\<close> from two leads and one
  for the campaign \<open>b\<close>.
\<close>

definition sample_event :: "string \<Rightarrow> string \<Rightarrow> jsval" where
  "sample_event c l = JObj [(''type'', JStr ''click''), (''lead_id'', JStr l), (''campaign'', JStr c)]"

definition sample_events :: "jsval list" where
  "sample_events =
     [sample_event ''a'' ''L1'', sample_event ''a'' ''L2'', sample_event ''a'' ''L1'',
      sample_event ''b'' ''L3'']"

definition sample_events_permuted :: "jsval list" where
  "sample_events_permuted =
     [sample_event ''b'' ''L3'', sample_event ''a'' ''L1'', sample_event ''a'' ''L1'',
      sample_event ''a'' ''L2'']"

section \<open>Properties of the string functions\<close>

lemma indexOf_ge: "- 1 \<le> indexOf s pat"
  by (induction s) (auto simp: Let_def)

lemma indexOf_least:
  "s = pre @ pat @ post \<Longrightarrow> 0 \<le> indexOf s pat \<and> indexOf s pat \<le> int (length pre)"
proof (induction s arbitrary: pre)
  case Nil
  then show ?case by simp
next
  case (Cons x xs)
  show ?case
  proof (cases "take (length pat) (x # xs) = pat")
    case True
    then show ?thesis by simp
  next
    case False
    then obtain y pre' where pre: "pre = y # pre'"
      using Cons.prems by (cases pre) auto
    then have "xs = pre' @ pat @ post"
      using Cons.prems by simp
    from Cons.IH [OF this] False pre show ?thesis
      by (simp add: Let_def)
  qed
qed

lemma indexOf_occurs:
  "0 \<le> indexOf s pat \<Longrightarrow>
     \<exists>post. s = take (nat (indexOf s pat)) s @ pat @ post"
proof (induction s)
  case Nil
  then show ?case by (simp split: if_splits)
next
  case (Cons x xs)
  show ?case
  proof (cases "take (length pat) (x # xs) = pat")
    case True
    then have "x # xs = pat @ drop (length pat) (x # xs)"
      by (metis append_take_drop_id)
    then have "\<exists>post. x # xs = pat @ post" ..
    with True show ?thesis by simp
  next
    case False
    with Cons.prems have nn: "0 \<le> indexOf xs pat"
      by (simp add: Let_def split: if_splits)
    from Cons.IH [OF nn] False nn show ?thesis
      by (simp add: Let_def nat_add_distrib)
  qed
qed

lemma occurs_in_iff: "occurs_in sep s \<longleftrightarrow> indexOf s sep \<noteq> - 1"
proof
  assume "occurs_in sep s"
  then show "indexOf s sep \<noteq> - 1"
    unfolding occurs_in_def using indexOf_least by fastforce
next
  assume "indexOf s sep \<noteq> - 1"
  with indexOf_ge [of s sep] have "0 \<le> indexOf s sep" by linarith
  from indexOf_occurs [OF this] show "occurs_in sep s"
    unfolding occurs_in_def by blast
qed

lemma before_first_iff:
  "before_first sep s pre \<longleftrightarrow>
     indexOf s sep = int (length pre) \<and> take (length pre) s = pre"
proof
  assume bf: "before_first sep s pre"
  then obtain post where s: "s = pre @ sep @ post"
    unfolding before_first_def by blast
  from indexOf_least [OF s] have le: "0 \<le> indexOf s sep" "indexOf s sep \<le> int (length pre)"
    by simp_all
  from indexOf_occurs [OF le(1)] obtain post'
    where "s = take (nat (indexOf s sep)) s @ sep @ post'" by blast
  with bf have "length pre \<le> length (take (nat (indexOf s sep)) s)"
    unfolding before_first_def by blast
  then have "length pre \<le> nat (indexOf s sep)" by simp
  with le have "indexOf s sep = int (length pre)" by linarith
  with s show "indexOf s sep = int (length pre) \<and> take (length pre) s = pre" by simp
next
  assume a: "indexOf s sep = int (length pre) \<and> take (length pre) s = pre"
  then have "0 \<le> indexOf s sep" by simp
  from indexOf_occurs [OF this] a obtain post where s: "s = pre @ sep @ post"
    by auto
  have "length pre \<le> length pre'" if "s = pre' @ sep @ post'" for pre' post'
    using indexOf_least [OF that] a by simp
  with s show "before_first sep s pre"
    unfolding before_first_def by blast
qed

lemma slice_prefix: "0 \<le> i \<Longrightarrow> slice s 0 i = take (nat i) s"
  by (auto simp: slice_def Let_def min_def)

section \<open>Industry derivation: what each server returns\<close>

text \<open>
  C1, as amended. \<open>pickIndustryFromCampaign\<close> returns the part of the campaign before the
  first \<open>_v\<close>, and the empty string when the campaign has no \<open>_v\<close>.
  \<open>getIndustryFromCampaign\<close> splits at the first \<open>_\<close> instead, and returns the whole
  campaign when it has no \<open>_\<close>.
\<close>

theorem industry_derivation:
  "(before_first ''_v'' s pre \<longrightarrow> pickIndustryFromCampaign s = pre) \<and>
   (\<not> occurs_in ''_v'' s \<longrightarrow> pickIndustryFromCampaign s = '''') \<and>
   (before_first ''_'' s pre \<longrightarrow> getIndustryFromCampaign s = pre) \<and>
   (\<not> occurs_in ''_'' s \<longrightarrow> getIndustryFromCampaign s = s)"
proof (intro conjI impI)
  assume "before_first ''_v'' s pre"
  then have a: "indexOf s ''_v'' = int (length pre)" "take (length pre) s = pre"
    by (simp_all add: before_first_iff)
  show "pickIndustryFromCampaign s = pre"
  proof (cases "pre = []")
    case True
    with a show ?thesis by (simp add: pickIndustryFromCampaign_def)
  next
    case False
    with a show ?thesis
      by (simp add: pickIndustryFromCampaign_def Let_def slice_prefix)
  qed
next
  assume "\<not> occurs_in ''_v'' s"
  then show "pickIndustryFromCampaign s = ''''"
    by (simp add: occurs_in_iff pickIndustryFromCampaign_def)
next
  assume "before_first ''_'' s pre"
  then have a: "indexOf s ''_'' = int (length pre)" "take (length pre) s = pre"
    by (simp_all add: before_first_iff)
  then have "s \<noteq> []" by (auto split: if_splits)
  with a show "getIndustryFromCampaign s = pre"
    by (simp add: getIndustryFromCampaign_def Let_def slice_prefix)
next
  assume "\<not> occurs_in ''_'' s"
  then show "getIndustryFromCampaign s = s"
    by (simp add: occurs_in_iff getIndustryFromCampaign_def)
qed

theorem industry_derivation_witness:
  "before_first ''_v'' ''restaurants_v1'' ''restaurants'' \<and>
   pickIndustryFromCampaign ''restaurants_v1'' = ''restaurants'' \<and>
   before_first ''_'' ''restaurants_v1'' ''restaurants'' \<and>
   getIndustryFromCampaign ''restaurants_v1'' = ''restaurants'' \<and>
   \<not> occurs_in ''_v'' ''dentists'' \<and> pickIndustryFromCampaign ''dentists'' = '''' \<and>
   \<not> occurs_in ''_'' ''dentists'' \<and> getIndustryFromCampaign ''dentists'' = ''dentists''"
  using industry_derivation [of "''restaurants_v1''" "''restaurants''"]
    industry_derivation [of "''dentists''" "''''"]
  by (simp add: before_first_iff occurs_in_iff)

text \<open>
  The claim as the specification states it fails for the sqlite server: a campaign with
  no separator is returned whole, not as the empty string.
\<close>

theorem industry_derivation_counterexample:
  "indexOf ''dentists'' ''_'' = - 1 \<and> indexOf ''dentists'' ''_v'' = - 1 \<and>
   getIndustryFromCampaign ''dentists'' = ''dentists'' \<and>
   getIndustryFromCampaign ''dentists'' \<noteq> ''''"
  by (simp add: getIndustryFromCampaign_def)

section \<open>The tracking routes\<close>

lemma collect_error: "collect rs = Inl err \<Longrightarrow> Inl err \<in> set rs"
  by (induction rs rule: collect.induct) (auto split: sum.splits)




lemma map_of_filter_other:
  "k \<noteq> name \<Longrightarrow> map_of (filter (\<lambda>p. fst p \<noteq> name) ps) k = map_of ps k"
  by (induction ps) auto

lemma map_of_searchParams_set:
  "map_of (searchParams_set ps name v) = (map_of ps)(name \<mapsto> v)"
proof (induction ps name v rule: searchParams_set.induct)
  case (1 name v)
  show ?case by simp
next
  case (2 k w ps name v)
  show ?case
  proof (cases "k = name")
    case True
    then show ?thesis
      by (auto simp: fun_eq_iff map_of_filter_other)
  next
    case False
    with 2 show ?thesis by (auto simp: fun_eq_iff)
  qed
qed

lemma searchParams_set_once:
  "length (filter (\<lambda>p. fst p = name) (searchParams_set ps name v)) = 1"
proof (induction ps name v rule: searchParams_set.induct)
  case (1 name v)
  show ?case by simp
next
  case (2 k w ps name v)
  have "filter (\<lambda>p. fst p = name) (filter (\<lambda>p. fst p \<noteq> name) ps) = []"
    by (induction ps) auto
  with 2 show ?case by simp
qed

lemma appendEvent_outcome:
  "appendEvent P fs ev =
     (case append_fault fs of
        Some e \<Rightarrow> (Inl e, fs)
      | None \<Rightarrow> (Inr (), fs\<lparr>events_file :=
                            Some (or_empty (events_file fs) @ JSON_stringify P ev @ [CHR 0x0A])\<rparr>))"
  by (simp add: appendEvent_def appendFile_def Let_def)



lemma file_route_r_outcome:
  "fst (file_route_r P LANDING_BASE req now fs) =
     (case String_or_empty (query_c req) of
        Inl err \<Rightarrow> Inl err
      | Inr c \<Rightarrow>
          (if LANDING_BASE = '''' then Inr (Send 500 [] (Text ''LANDING_BASE not configured''))
           else case URL_parse P LANDING_BASE of
                  None \<Rightarrow> Inl TypeError
                | Some url \<Rightarrow>
                    Inr (Redirect 302 (URL_toString (url\<lparr>searchParams :=
                      searchParams_set (searchParams_set (searchParams_set
                        (if c \<noteq> ''''
                         then searchParams_set
                                (searchParams_set (searchParams url) ''lid'' (params_lead_id req))
                                ''utm_campaign'' c
                         else searchParams_set (searchParams url) ''lid'' (params_lead_id req))
                        ''utm_source'' ''coldemail'') ''utm_medium'' ''email'') ''c'' c\<rparr>)))))"
  by (simp add: file_route_r_def Let_def split: sum.splits option.splits)



lemma sqlite_route_r_outcome:
  "String_or_empty (query_c req) = Inr camp \<Longrightarrow> hashIp P (req_ip req) = Inr h \<Longrightarrow>
   fst (sqlite_route_r P LANDING_BASE req now db) =
     (case run_fault db of
        Some e \<Rightarrow> Inl e
      | None \<Rightarrow>
          Inr (Redirect 302
                 (if LANDING_BASE \<noteq> ''''
                  then LANDING_BASE @ ''?lid='' @ encodeURIComponent (params_lead_id req) @
                       ''&utm_campaign='' @ encodeURIComponent camp
                  else ''/stats'')))"
  by (simp add: sqlite_route_r_def run_def Let_def split: option.splits)


lemma sample_hash: "hashIp sample_platform (req_ip sample_request) = Inr sample_digest"
  by (simp add: hashIp_def sample_platform_def)

lemma sample_url:
  "URL_parse sample_platform ''https://example.com/land'' =
     Some \<lparr>url_head = ''https://example.com/land'', searchParams = [], url_hash = ''''\<rparr>"
  by (simp add: sample_platform_def)

lemma sample_query: "String_or_empty (query_c sample_request) = Inr ''restaurants_v1''"
  by (simp add: sample_request_def)

lemma sample_query_lid: "String_or_empty (query_lid sample_request) = Inr ''L1''"
  by (simp add: sample_request_def)





lemma appendEvent_file:
  "events_file (snd (appendEvent P fs ev)) =
     (case append_fault fs of
        None \<Rightarrow> Some (or_empty (events_file fs) @ JSON_stringify P ev @ [CHR 0x0A])
      | Some e \<Rightarrow> events_file fs)"
  by (simp add: appendEvent_outcome split: option.splits)

lemma file_route_r_store:
  "snd (file_route_r P LANDING_BASE req now fs) =
     (case String_or_empty (query_c req) of
        Inl err \<Rightarrow> fs
      | Inr c \<Rightarrow> snd (appendEvent P fs (r_ev P req c now)))"
  by (simp add: file_route_r_def Let_def split: sum.splits option.splits)

lemma file_route_o_store:
  "snd (file_route_o P req now fs) =
     (case String_or_empty (query_c req) of
        Inl err \<Rightarrow> fs
      | Inr c \<Rightarrow> snd (appendEvent P fs (o_ev P req c now)))"
  by (simp add: file_route_o_def Let_def split: sum.splits)

lemma file_route_conv_store:
  "snd (file_route_conv P req now fs) =
     (case String_or_empty (query_lid req) of
        Inl err \<Rightarrow> fs
      | Inr l \<Rightarrow>
          (case String_or_empty (query_c req) of
             Inl err \<Rightarrow> fs
           | Inr c \<Rightarrow> snd (appendEvent P fs (conv_ev P req l c now))))"
  by (simp add: file_route_conv_def Let_def split: sum.splits)

text \<open>
  C3, as amended. In the flat-file server, with a landing base that \<^verbatim>\<open>new URL\<close> accepts and a
  query value \<open>c\<close> that converts to the string \<open>camp\<close> (every string does, to itself), the
  click route redirects with status 302 to the landing URL whose search parameters hold
  \<open>lid\<close> = the lead, \<open>utm_source\<close> = \<open>coldemail\<close>, \<open>utm_medium\<close> = \<open>email\<close> and \<open>c\<close> = the
  campaign; \<open>utm_campaign\<close> = the campaign is set only when the campaign is not empty, and
  is left as the landing base has it otherwise. The sqlite server, when its insert
  succeeds, redirects with status 302 to the landing base followed by \<open>?lid=\<close>, the encoded
  lead, \<open>&utm_campaign=\<close> and the encoded campaign, and adds no other parameter.
\<close>

theorem click_redirect:
  "String_or_empty (Some (QStr camp)) = Inr camp \<and>
   (LANDING_BASE \<noteq> '''' \<and> URL_parse P LANDING_BASE = Some u \<and>
    String_or_empty (query_c req) = Inr camp \<longrightarrow>
      (\<exists>ps. fst (file_route_r P LANDING_BASE req now fs) =
              Inr (Redirect 302 (URL_toString (u\<lparr>searchParams := ps\<rparr>))) \<and>
            map_of ps ''lid'' = Some (params_lead_id req) \<and>
            map_of ps ''utm_source'' = Some ''coldemail'' \<and>
            map_of ps ''utm_medium'' = Some ''email'' \<and>
            map_of ps ''c'' = Some camp \<and>
            (camp \<noteq> '''' \<longrightarrow> map_of ps ''utm_campaign'' = Some camp) \<and>
            (camp = '''' \<longrightarrow>
               map_of ps ''utm_campaign'' = map_of (searchParams u) ''utm_campaign''))) \<and>
   (LANDING_BASE \<noteq> '''' \<and> String_or_empty (query_c req) = Inr camp \<and>
    hashIp P (req_ip req) = Inr h \<and> run_fault db = None \<longrightarrow>
      fst (sqlite_route_r P LANDING_BASE req now db) =
        Inr (Redirect 302 (LANDING_BASE @ ''?lid='' @ encodeURIComponent (params_lead_id req) @
               ''&utm_campaign='' @ encodeURIComponent camp)))"
proof (intro conjI impI)
  show "String_or_empty (Some (QStr camp)) = Inr camp"
    by simp
next
  assume a: "LANDING_BASE \<noteq> '''' \<and> URL_parse P LANDING_BASE = Some u \<and>
    String_or_empty (query_c req) = Inr camp"
  define p1 where "p1 = searchParams_set (searchParams u) ''lid'' (params_lead_id req)"
  define p2 where "p2 = (if camp \<noteq> '''' then searchParams_set p1 ''utm_campaign'' camp else p1)"
  define ps where "ps = searchParams_set (searchParams_set (searchParams_set p2
      ''utm_source'' ''coldemail'') ''utm_medium'' ''email'') ''c'' camp"
  from a have "fst (file_route_r P LANDING_BASE req now fs) =
      Inr (Redirect 302 (URL_toString (u\<lparr>searchParams := ps\<rparr>)))"
    by (simp add: file_route_r_outcome ps_def p2_def p1_def)
  moreover have "map_of ps ''lid'' = Some (params_lead_id req)"
    by (simp add: ps_def p2_def p1_def map_of_searchParams_set)
  moreover have "map_of ps ''utm_source'' = Some ''coldemail''"
    by (simp add: ps_def map_of_searchParams_set)
  moreover have "map_of ps ''utm_medium'' = Some ''email''"
    by (simp add: ps_def map_of_searchParams_set)
  moreover have "map_of ps ''c'' = Some camp"
    by (simp add: ps_def map_of_searchParams_set)
  moreover have "camp \<noteq> '''' \<longrightarrow> map_of ps ''utm_campaign'' = Some camp"
    by (simp add: ps_def p2_def map_of_searchParams_set)
  moreover have "camp = '''' \<longrightarrow> map_of ps ''utm_campaign'' = map_of (searchParams u) ''utm_campaign''"
    by (simp add: ps_def p2_def p1_def map_of_searchParams_set)
  ultimately show "\<exists>ps. fst (file_route_r P LANDING_BASE req now fs) =
              Inr (Redirect 302 (URL_toString (u\<lparr>searchParams := ps\<rparr>))) \<and>
            map_of ps ''lid'' = Some (params_lead_id req) \<and>
            map_of ps ''utm_source'' = Some ''coldemail'' \<and>
            map_of ps ''utm_medium'' = Some ''email'' \<and>
            map_of ps ''c'' = Some camp \<and>
            (camp \<noteq> '''' \<longrightarrow> map_of ps ''utm_campaign'' = Some camp) \<and>
            (camp = '''' \<longrightarrow>
               map_of ps ''utm_campaign'' = map_of (searchParams u) ''utm_campaign'')"
    by blast
next
  assume "LANDING_BASE \<noteq> '''' \<and> String_or_empty (query_c req) = Inr camp \<and>
    hashIp P (req_ip req) = Inr h \<and> run_fault db = None"
  then show "fst (sqlite_route_r P LANDING_BASE req now db) =
        Inr (Redirect 302 (LANDING_BASE @ ''?lid='' @ encodeURIComponent (params_lead_id req) @
               ''&utm_campaign='' @ encodeURIComponent camp))"
    by (simp add: sqlite_route_r_outcome)
qed

theorem click_redirect_witness:
  "''https://example.com/land'' \<noteq> '''' \<and>
   URL_parse sample_platform ''https://example.com/land'' =
     Some \<lparr>url_head = ''https://example.com/land'', searchParams = [], url_hash = ''''\<rparr> \<and>
   String_or_empty (query_c sample_request) = Inr ''restaurants_v1'' \<and>
   fst (file_route_r sample_platform ''https://example.com/land'' sample_request
          ''2026-01-01T00:00:00.000Z'' writable_fs) =
     Inr (Redirect 302 ''https://example.com/land?lid=L1&utm_campaign=restaurants_v1&utm_source=coldemail&utm_medium=email&c=restaurants_v1'') \<and>
   hashIp sample_platform (req_ip sample_request) = Inr sample_digest \<and>
   run_fault working_db = None \<and>
   fst (sqlite_route_r sample_platform ''https://example.com/land'' sample_request
          ''2026-01-01T00:00:00.000Z'' working_db) =
     Inr (Redirect 302 (''https://example.com/land'' @ ''?lid='' @
            encodeURIComponent (params_lead_id sample_request) @ ''&utm_campaign='' @
            encodeURIComponent ''restaurants_v1''))"
proof -
  have r: "fst (file_route_r sample_platform ''https://example.com/land'' sample_request
          ''2026-01-01T00:00:00.000Z'' writable_fs) =
     Inr (Redirect 302 ''https://example.com/land?lid=L1&utm_campaign=restaurants_v1&utm_source=coldemail&utm_medium=email&c=restaurants_v1'')"
    by (simp add: file_route_r_outcome sample_url sample_query URL_toString_def
        form_urlencode_def is_alnum_def)
      (simp add: sample_request_def)
  have db: "run_fault working_db = None"
    by (simp add: working_db_def)
  from click_redirect [where LANDING_BASE = "''https://example.com/land''" and P = sample_platform
      and u = "\<lparr>url_head = ''https://example.com/land'', searchParams = [], url_hash = ''''\<rparr>"
      and req = sample_request and now = "''2026-01-01T00:00:00.000Z''" and fs = writable_fs
      and camp = "''restaurants_v1''" and h = sample_digest and db = working_db]
    r db sample_hash sample_url sample_query
  show ?thesis by simp
qed

text \<open>
  The claim as stated fails in both servers: the sqlite server's redirect URL has neither
  \<open>utm_source\<close>, \<open>utm_medium\<close> nor \<open>c\<close>, and the flat-file server sets no \<open>utm_campaign\<close> for
  an empty campaign.
\<close>

theorem click_redirect_counterexample:
  "fst (sqlite_route_r sample_platform ''https://example.com/land'' sample_request
          ''2026-01-01T00:00:00.000Z'' working_db) =
     Inr (Redirect 302 ''https://example.com/land?lid=L1&utm_campaign=restaurants_v1'') \<and>
   indexOf ''https://example.com/land?lid=L1&utm_campaign=restaurants_v1'' ''utm_source='' = - 1 \<and>
   indexOf ''https://example.com/land?lid=L1&utm_campaign=restaurants_v1'' ''utm_medium='' = - 1 \<and>
   fst (file_route_r sample_platform ''https://example.com/land''
          (sample_request\<lparr>query_c := None\<rparr>) ''2026-01-01T00:00:00.000Z'' writable_fs) =
     Inr (Redirect 302 ''https://example.com/land?lid=L1&utm_source=coldemail&utm_medium=email&c='') \<and>
   indexOf ''https://example.com/land?lid=L1&utm_source=coldemail&utm_medium=email&c=''
     ''utm_campaign='' = - 1"
proof -
  have l: "params_lead_id sample_request = ''L1''"
    by (simp add: sample_request_def)
  then have "fst (sqlite_route_r sample_platform ''https://example.com/land'' sample_request
          ''2026-01-01T00:00:00.000Z'' working_db) =
     Inr (Redirect 302 ''https://example.com/land?lid=L1&utm_campaign=restaurants_v1'')"
    by (simp add: sqlite_route_r_outcome [OF sample_query sample_hash] working_db_def
        encodeURIComponent_def is_alnum_def)
  moreover have "fst (file_route_r sample_platform ''https://example.com/land''
          (sample_request\<lparr>query_c := None\<rparr>) ''2026-01-01T00:00:00.000Z'' writable_fs) =
     Inr (Redirect 302 ''https://example.com/land?lid=L1&utm_source=coldemail&utm_medium=email&c='')"
    by (simp add: file_route_r_outcome sample_url URL_toString_def
        form_urlencode_def is_alnum_def)
      (simp add: sample_request_def)
  ultimately show ?thesis by simp
qed




text \<open>
  C5, as amended. Every event the flat-file server appends to its store has a \<open>type\<close> that
  is one of the three strings \<open>click\<close>, \<open>open\<close> and \<open>conv\<close>: a click route appends one line,
  the event of type \<open>click\<close>, the pixel route one of type \<open>open\<close>, and the conversion route
  one of type \<open>conv\<close> (the string the stats page selects conversions by), not \<open>conversion\<close>.
  A route whose query value cannot be converted to a string appends nothing.
\<close>

theorem event_type:
  "events_file (snd (file_route_r P LANDING_BASE req now fs)) =
     (case String_or_empty (query_c req) of
        Inl err \<Rightarrow> events_file fs
      | Inr c \<Rightarrow>
          (case append_fault fs of
             None \<Rightarrow> Some (or_empty (events_file fs) @ JSON_stringify P (r_ev P req c now) @
                           [CHR 0x0A])
           | Some e \<Rightarrow> events_file fs)) \<and>
   field (r_ev P req camp now) ''type'' = JStr ''click'' \<and>
   events_file (snd (file_route_o P req now fs)) =
     (case String_or_empty (query_c req) of
        Inl err \<Rightarrow> events_file fs
      | Inr c \<Rightarrow>
          (case append_fault fs of
             None \<Rightarrow> Some (or_empty (events_file fs) @ JSON_stringify P (o_ev P req c now) @
                           [CHR 0x0A])
           | Some e \<Rightarrow> events_file fs)) \<and>
   field (o_ev P req camp now) ''type'' = JStr ''open'' \<and>
   events_file (snd (file_route_conv P req now fs)) =
     (case String_or_empty (query_lid req) of
        Inl err \<Rightarrow> events_file fs
      | Inr l \<Rightarrow>
          (case String_or_empty (query_c req) of
             Inl err \<Rightarrow> events_file fs
           | Inr c \<Rightarrow>
               (case append_fault fs of
                  None \<Rightarrow> Some (or_empty (events_file fs) @
                                JSON_stringify P (conv_ev P req l c now) @ [CHR 0x0A])
                | Some e \<Rightarrow> events_file fs))) \<and>
   field (conv_ev P req lid camp now) ''type'' = JStr ''conv'' \<and>
   filter_type ''conv'' [conv_ev P req lid camp now] = Inr [conv_ev P req lid camp now]"
proof -
  have types:
    "field (r_ev P req camp now) ''type'' = JStr ''click''"
    "field (o_ev P req camp now) ''type'' = JStr ''open''"
    "field (conv_ev P req lid camp now) ''type'' = JStr ''conv''"
    by (simp_all add: r_ev_def o_ev_def conv_ev_def Let_def)
  then have "filter_type ''conv'' [conv_ev P req lid camp now] = Inr [conv_ev P req lid camp now]"
    by (simp add: conv_ev_def Let_def)
  with types show ?thesis
    by (simp add: file_route_r_store file_route_o_store file_route_conv_store appendEvent_file
        split: sum.splits)
qed

theorem event_type_witness:
  "events_file (snd (file_route_conv sample_platform sample_request ''2026-01-01T00:00:00.000Z''
      writable_fs)) =
     Some (JSON_stringify sample_platform
             (conv_ev sample_platform sample_request ''L1'' ''restaurants_v1''
                ''2026-01-01T00:00:00.000Z'') @ [CHR 0x0A]) \<and>
   field (conv_ev sample_platform sample_request ''L1'' ''restaurants_v1''
            ''2026-01-01T00:00:00.000Z'') ''type'' = JStr ''conv''"
  using event_type [where P = sample_platform and LANDING_BASE = "''''" and req = sample_request
      and now = "''2026-01-01T00:00:00.000Z''" and fs = writable_fs and lid = "''L1''"
      and camp = "''restaurants_v1''"]
  by (simp add: writable_fs_def sample_query sample_query_lid)

text \<open>
  The claim as stated fails at the conversion route: the type it stores is the string
  \<open>conv\<close>, which is none of \<open>click\<close>, \<open>open\<close> and \<open>conversion\<close>.
\<close>

theorem event_type_counterexample:
  "events_file (snd (file_route_conv sample_platform sample_request ''2026-01-01T00:00:00.000Z''
      writable_fs)) =
     Some (JSON_stringify sample_platform
             (conv_ev sample_platform sample_request ''L1'' ''restaurants_v1''
                ''2026-01-01T00:00:00.000Z'') @ [CHR 0x0A]) \<and>
   field (conv_ev sample_platform sample_request ''L1'' ''restaurants_v1''
            ''2026-01-01T00:00:00.000Z'') ''type'' = JStr ''conv'' \<and>
   field (conv_ev sample_platform sample_request ''L1'' ''restaurants_v1''
            ''2026-01-01T00:00:00.000Z'') ''type''
     \<notin> {JStr ''click'', JStr ''open'', JStr ''conversion''}"
proof -
  have "field (conv_ev sample_platform sample_request ''L1'' ''restaurants_v1''
            ''2026-01-01T00:00:00.000Z'') ''type'' = JStr ''conv''"
    by (simp add: conv_ev_def Let_def)
  then show ?thesis
    by (simp add: file_route_conv_store sample_query sample_query_lid appendEvent_file
        writable_fs_def)
qed

text \<open>
  C6, as amended. In the flat-file server \<open>ipHash\<close> returns the first 16 characters of the
  hexadecimal SHA-256 digest of the client address, and the empty string when the digest
  throws; this is the \<open>ip_hash\<close> of every event. In the sqlite server \<open>hashIp\<close> returns the
  whole digest, and when the digest throws it throws too: the route is rejected, with that
  error unless the conversion of the query value before it has thrown already.
\<close>

theorem ip_hash:
  "(sha256_hex P ip = Inr digest \<longrightarrow> ipHash P ip = take 16 digest) \<and>
   (sha256_hex P ip = Inl e \<longrightarrow> ipHash P ip = '''') \<and>
   length (ipHash P ip) \<le> 16 \<and>
   (sha256_hex P ip = Inr digest \<and> 16 \<le> length digest \<longrightarrow> length (ipHash P ip) = 16) \<and>
   field (r_ev P req camp now) ''ip_hash'' = JStr (ipHash P (client_ip req)) \<and>
   field (o_ev P req camp now) ''ip_hash'' = JStr (ipHash P (client_ip req)) \<and>
   field (conv_ev P req lid camp now) ''ip_hash'' = JStr (ipHash P (client_ip req)) \<and>
   (sha256_hex P (or_empty (req_ip req)) = Inr digest \<longrightarrow> hashIp P (req_ip req) = Inr digest) \<and>
   (sha256_hex P (or_empty (req_ip req)) = Inl e \<longrightarrow>
      hashIp P (req_ip req) = Inl e \<and>
      sqlite_route_r P LANDING_BASE req now db =
        (case String_or_empty (query_c req) of
           Inl err \<Rightarrow> (Inl err, db)
         | Inr c \<Rightarrow> (Inl e, db)) \<and>
      sqlite_route_o P req now db =
        (case String_or_empty (query_c req) of
           Inl err \<Rightarrow> (Inl err, db)
         | Inr c \<Rightarrow> (Inl e, db)))"
proof -
  have fields:
    "field (r_ev P req camp now) ''ip_hash'' = JStr (ipHash P (client_ip req))"
    "field (o_ev P req camp now) ''ip_hash'' = JStr (ipHash P (client_ip req))"
    "field (conv_ev P req lid camp now) ''ip_hash'' = JStr (ipHash P (client_ip req))"
    by (simp_all add: r_ev_def o_ev_def conv_ev_def Let_def)
  have hashes:
    "sha256_hex P ip = Inr digest \<longrightarrow> ipHash P ip = take 16 digest"
    "sha256_hex P ip = Inl e \<longrightarrow> ipHash P ip = ''''"
    "length (ipHash P ip) \<le> 16"
    "sha256_hex P ip = Inr digest \<and> 16 \<le> length digest \<longrightarrow> length (ipHash P ip) = 16"
    by (auto simp: ipHash_def slice_prefix split: sum.splits)
  have sqlite:
    "sha256_hex P (or_empty (req_ip req)) = Inr digest \<longrightarrow> hashIp P (req_ip req) = Inr digest"
    "sha256_hex P (or_empty (req_ip req)) = Inl e \<longrightarrow>
      hashIp P (req_ip req) = Inl e \<and>
      sqlite_route_r P LANDING_BASE req now db =
        (case String_or_empty (query_c req) of
           Inl err \<Rightarrow> (Inl err, db)
         | Inr c \<Rightarrow> (Inl e, db)) \<and>
      sqlite_route_o P req now db =
        (case String_or_empty (query_c req) of
           Inl err \<Rightarrow> (Inl err, db)
         | Inr c \<Rightarrow> (Inl e, db))"
    by (auto simp: hashIp_def sqlite_route_r_def sqlite_route_o_def Let_def split: sum.splits)
  from fields hashes sqlite show ?thesis
    by blast
qed

theorem ip_hash_witness:
  "sha256_hex sample_platform ''203.0.113.7'' = Inr sample_digest \<and>
   ipHash sample_platform ''203.0.113.7'' = ''0123abcd0123abcd'' \<and>
   sha256_hex failing_hash_platform ''203.0.113.7'' = Inl (Error ''Digest method not supported'') \<and>
   ipHash failing_hash_platform ''203.0.113.7'' = '''' \<and>
   or_empty (req_ip sample_request) = ''203.0.113.7'' \<and>
   hashIp sample_platform (req_ip sample_request) = Inr sample_digest \<and>
   String_or_empty (query_c sample_request) = Inr ''restaurants_v1'' \<and>
   sqlite_route_r failing_hash_platform ''https://example.com/land'' sample_request
     ''2026-01-01T00:00:00.000Z'' working_db = (Inl (Error ''Digest method not supported''), working_db)"
proof -
  have a: "sha256_hex sample_platform ''203.0.113.7'' = Inr sample_digest"
    by (simp add: sample_platform_def)
  have b: "sha256_hex failing_hash_platform ''203.0.113.7'' = Inl (Error ''Digest method not supported'')"
    by (simp add: failing_hash_platform_def)
  have c: "or_empty (req_ip sample_request) = ''203.0.113.7''"
    by (simp add: sample_request_def)
  have d: "take 16 sample_digest = ''0123abcd0123abcd''"
    by (simp add: sample_digest_def)
  from ip_hash [where P = sample_platform and ip = "''203.0.113.7''" and digest = sample_digest
      and e = "Error ''Digest method not supported''" and req = sample_request
      and now = "''2026-01-01T00:00:00.000Z''" and LANDING_BASE = "''https://example.com/land''"
      and db = working_db]
    ip_hash [where P = failing_hash_platform and ip = "''203.0.113.7''" and digest = sample_digest
      and e = "Error ''Digest method not supported''" and req = sample_request
      and now = "''2026-01-01T00:00:00.000Z''" and LANDING_BASE = "''https://example.com/land''"
      and db = working_db]
    a b c d sample_query
  show ?thesis by simp
qed

text \<open>
  The claim as stated fails for the sqlite server: its hash is the whole digest of 64
  characters, not a prefix, and a digest that throws is not caught.
\<close>

theorem ip_hash_counterexample:
  "hashIp failing_hash_platform (Some ''203.0.113.7'') = Inl (Error ''Digest method not supported'') \<and>
   hashIp sample_platform (Some ''203.0.113.7'') = sha256_hex sample_platform ''203.0.113.7'' \<and>
   hashIp sample_platform (Some ''203.0.113.7'') =
     Inr ''0123abcd0123abcd0123abcd0123abcd0123abcd0123abcd0123abcd0123abcd'' \<and>
   ipHash sample_platform ''203.0.113.7'' = ''0123abcd0123abcd''"
  by (simp add: hashIp_def failing_hash_platform_def sample_platform_def ipHash_def slice_prefix
      sample_digest_def)

section \<open>Reading the events file\<close>

lemma split_on_nonempty: "split_on sep s \<noteq> []"
  by (induction s) (auto split: list.splits)

lemma split_on_no_sep: "sep \<notin> set l \<Longrightarrow> split_on sep l = [l]"
  by (induction l) auto

lemma split_on_line: "sep \<notin> set l \<Longrightarrow> split_on sep (l @ sep # rest) = l # split_on sep rest"
  by (induction l) auto

lemma split_on_join:
  "\<forall>l\<in>set ls. sep \<notin> set l \<Longrightarrow> ls \<noteq> [] \<Longrightarrow> split_on sep (join [sep] ls) = ls"
proof (induction "[sep]" ls rule: join.induct)
  case 1
  then show ?case by simp
next
  case (2 p)
  then show ?case by (simp add: split_on_no_sep)
next
  case (3 p q ps)
  then show ?case by (simp add: split_on_line)
qed

lemma split_on_lines: "\<forall>l\<in>set (split_on sep s). sep \<notin> set l"
  by (induction s) (auto split: list.splits)

lemma join_split_on: "join [sep] (split_on sep s) = s"
proof (induction s)
  case Nil
  show ?case by simp
next
  case (Cons x xs)
  obtain p ps where sp: "split_on sep xs = p # ps"
    using split_on_nonempty [of sep xs] by (cases "split_on sep xs") auto
  with Cons show ?case
    by (cases ps) auto
qed

lemma readEvents_content:
  "read_fault fs = None \<Longrightarrow> events_file fs = Some data \<Longrightarrow>
     readEvents P fs = Inr (concat (map (line_events P) (split_on (CHR 0x0A) data)))"
proof -
  have "filter truthy (map (\<lambda>l. case JSON_parse P l of Some v \<Rightarrow> v | None \<Rightarrow> JNull)
          (filter (\<lambda>l. l \<noteq> '''') ls)) = concat (map (line_events P) ls)" for ls
    by (induction ls) (auto simp: line_events_def split: option.splits)
  then show "read_fault fs = None \<Longrightarrow> events_file fs = Some data \<Longrightarrow>
     readEvents P fs = Inr (concat (map (line_events P) (split_on (CHR 0x0A) data)))"
    by (simp add: readEvents_def readFile_def)
qed

lemma readEvents_truthy: "readEvents P fs = Inr events \<Longrightarrow> e \<in> set events \<Longrightarrow> truthy e"
  by (auto simp: readEvents_def split: sum.splits if_splits)

lemma summarize_Nil: "summarize [] = Inr []"
  by (simp add: summarize_def Object_keys_def)

text \<open>
  C7. When the events file does not exist (the read fails with code \<open>ENOENT\<close>),
  \<open>readEvents\<close> returns the empty list and the stats page is sent with status 200 and three
  tables without rows; an empty file gives the same page. A read that fails with any other
  error makes \<open>readEvents\<close>, and with it the stats route, fail with that error.
\<close>

theorem readEvents_missing_file:
  "(read_fault fs = None \<and> events_file fs = None \<longrightarrow>
      readFile fs = Inl (SystemError ''ENOENT'') \<and>
      readEvents P fs = Inr [] \<and>
      file_route_stats P EVENTS_PATH fs =
        Inr (Send 200 [(''Content-Type'', ''text/html; charset=utf-8'')]
               (Text (stats_html EVENTS_PATH [] [] [])))) \<and>
   (read_fault fs = Some e \<and> error_code e = Some ''ENOENT'' \<longrightarrow>
      readEvents P fs = Inr [] \<and>
      file_route_stats P EVENTS_PATH fs =
        Inr (Send 200 [(''Content-Type'', ''text/html; charset=utf-8'')]
               (Text (stats_html EVENTS_PATH [] [] [])))) \<and>
   (read_fault fs = None \<and> events_file fs = Some '''' \<longrightarrow>
      readEvents P fs = Inr [] \<and>
      file_route_stats P EVENTS_PATH fs =
        Inr (Send 200 [(''Content-Type'', ''text/html; charset=utf-8'')]
               (Text (stats_html EVENTS_PATH [] [] [])))) \<and>
   (read_fault fs = Some e \<and> error_code e \<noteq> Some ''ENOENT'' \<longrightarrow>
      readEvents P fs = Inl e \<and> file_route_stats P EVENTS_PATH fs = Inl e)"
  by (simp add: readEvents_def readFile_def file_route_stats_def summarize_Nil)

theorem readEvents_missing_file_witness:
  "read_fault writable_fs = None \<and> events_file writable_fs = None \<and>
   readEvents sample_platform writable_fs = Inr [] \<and>
   file_route_stats sample_platform ''/tmp/trippy-tracker/events.jsonl'' writable_fs =
     Inr (Send 200 [(''Content-Type'', ''text/html; charset=utf-8'')]
            (Text (stats_html ''/tmp/trippy-tracker/events.jsonl'' [] [] []))) \<and>
   read_fault (writable_fs\<lparr>read_fault := Some (SystemError ''ENOENT'')\<rparr>) = Some (SystemError ''ENOENT'') \<and>
   error_code (SystemError ''ENOENT'') = Some ''ENOENT'' \<and>
   readEvents sample_platform (writable_fs\<lparr>read_fault := Some (SystemError ''ENOENT'')\<rparr>) = Inr [] \<and>
   read_fault (writable_fs\<lparr>events_file := Some ''''\<rparr>) = None \<and>
   events_file (writable_fs\<lparr>events_file := Some ''''\<rparr>) = Some '''' \<and>
   readEvents sample_platform (writable_fs\<lparr>events_file := Some ''''\<rparr>) = Inr [] \<and>
   read_fault (writable_fs\<lparr>read_fault := Some (SystemError ''EACCES'')\<rparr>) = Some (SystemError ''EACCES'') \<and>
   error_code (SystemError ''EACCES'') \<noteq> Some ''ENOENT'' \<and>
   readEvents sample_platform (writable_fs\<lparr>read_fault := Some (SystemError ''EACCES'')\<rparr>) =
     Inl (SystemError ''EACCES'') \<and>
   file_route_stats sample_platform ''/tmp/trippy-tracker/events.jsonl''
     (writable_fs\<lparr>read_fault := Some (SystemError ''EACCES'')\<rparr>) = Inl (SystemError ''EACCES'')"
proof -
  have a: "read_fault writable_fs = None \<and> events_file writable_fs = None"
    by (simp add: writable_fs_def)
  have b: "read_fault (writable_fs\<lparr>read_fault := Some (SystemError ''EACCES'')\<rparr>) = Some (SystemError ''EACCES'') \<and>
    error_code (SystemError ''EACCES'') \<noteq> Some ''ENOENT''"
    by simp
  have c: "read_fault (writable_fs\<lparr>read_fault := Some (SystemError ''ENOENT'')\<rparr>) = Some (SystemError ''ENOENT'') \<and>
    error_code (SystemError ''ENOENT'') = Some ''ENOENT''"
    by simp
  have d: "read_fault (writable_fs\<lparr>events_file := Some ''''\<rparr>) = None \<and>
    events_file (writable_fs\<lparr>events_file := Some ''''\<rparr>) = Some ''''"
    by (simp add: writable_fs_def)
  note t1 = readEvents_missing_file [of writable_fs sample_platform "''/tmp/trippy-tracker/events.jsonl''"
      "SystemError ''EACCES''"]
  note t2 = readEvents_missing_file [of "writable_fs\<lparr>read_fault := Some (SystemError ''EACCES'')\<rparr>"
      sample_platform "''/tmp/trippy-tracker/events.jsonl''" "SystemError ''EACCES''"]
  note t3 = readEvents_missing_file [of "writable_fs\<lparr>read_fault := Some (SystemError ''ENOENT'')\<rparr>"
      sample_platform "''/tmp/trippy-tracker/events.jsonl''" "SystemError ''ENOENT''"]
  note t4 = readEvents_missing_file [of "writable_fs\<lparr>events_file := Some ''''\<rparr>"
      sample_platform "''/tmp/trippy-tracker/events.jsonl''" "SystemError ''ENOENT''"]
  from t1 a have p1: "readEvents sample_platform writable_fs = Inr [] \<and>
      file_route_stats sample_platform ''/tmp/trippy-tracker/events.jsonl'' writable_fs =
        Inr (Send 200 [(''Content-Type'', ''text/html; charset=utf-8'')]
               (Text (stats_html ''/tmp/trippy-tracker/events.jsonl'' [] [] [])))"
    by blast
  from t2 b have p2: "readEvents sample_platform (writable_fs\<lparr>read_fault := Some (SystemError ''EACCES'')\<rparr>) =
     Inl (SystemError ''EACCES'') \<and>
     file_route_stats sample_platform ''/tmp/trippy-tracker/events.jsonl''
     (writable_fs\<lparr>read_fault := Some (SystemError ''EACCES'')\<rparr>) = Inl (SystemError ''EACCES'')"
    by blast
  from t3 c have p3: "readEvents sample_platform (writable_fs\<lparr>read_fault := Some (SystemError ''ENOENT'')\<rparr>) = Inr []"
    by blast
  from t4 d have p4: "readEvents sample_platform (writable_fs\<lparr>events_file := Some ''''\<rparr>) = Inr []"
    by blast
  from a b c d p1 p2 p3 p4 show ?thesis
    by blast
qed

text \<open>
  C8, as amended. The events file is its lines joined by line feeds, and \<open>readEvents\<close>
  returns the contributions of the lines, each on its own and in the order of the file: a
  line that does not parse contributes nothing, a line that parses to a truthy value (every
  object is one) contributes that value, and a line that parses to a falsy value (\<^verbatim>\<open>null\<close>,
  \<^verbatim>\<open>false\<close>, \<^verbatim>\<open>0\<close> or the empty string) contributes nothing either. Every content of the
  file is such a join of lines.
\<close>

theorem readEvents_skips_malformed_lines:
  "(read_fault fs = None \<and> events_file fs = Some (join [CHR 0x0A] ls) \<and>
    (\<forall>l\<in>set ls. CHR 0x0A \<notin> set l) \<longrightarrow>
      readEvents P fs = Inr (concat (map (line_events P) ls))) \<and>
   (JSON_parse P l = None \<longrightarrow> line_events P l = []) \<and>
   (l \<noteq> '''' \<and> JSON_parse P l = Some (JObj kvs) \<longrightarrow> line_events P l = [JObj kvs]) \<and>
   (l \<noteq> '''' \<and> JSON_parse P l = Some v \<and> truthy v \<longrightarrow> line_events P l = [v]) \<and>
   (JSON_parse P l = Some v \<and> \<not> truthy v \<longrightarrow> line_events P l = []) \<and>
   join [CHR 0x0A] (split_on (CHR 0x0A) data) = data \<and>
   (\<forall>l\<in>set (split_on (CHR 0x0A) data). CHR 0x0A \<notin> set l)"
proof (intro conjI impI)
  assume a: "read_fault fs = None \<and> events_file fs = Some (join [CHR 0x0A] ls) \<and>
    (\<forall>l\<in>set ls. CHR 0x0A \<notin> set l)"
  show "readEvents P fs = Inr (concat (map (line_events P) ls))"
  proof (cases "ls = []")
    case True
    with a show ?thesis
      by (simp add: readEvents_content line_events_def)
  next
    case False
    with a show ?thesis
      by (simp add: readEvents_content split_on_join)
  qed
qed (simp_all add: line_events_def join_split_on split_on_lines)

theorem readEvents_skips_malformed_lines_witness:
  "read_fault \<lparr>events_file = Some (join [CHR 0x0A] [''{}'', ''{oops'', ''{}'', '''']),
               append_fault = None, read_fault = None\<rparr> = None \<and>
   CHR 0x0A \<notin> set ''{}'' \<and> CHR 0x0A \<notin> set ''{oops'' \<and> CHR 0x0A \<notin> set '''' \<and>
   join [CHR 0x0A] [''{}'', ''{oops'', ''{}'', ''''] =
     ''{}'' @ [CHR 0x0A] @ ''{oops'' @ [CHR 0x0A] @ ''{}'' @ [CHR 0x0A] \<and>
   JSON_parse sample_platform ''{oops'' = None \<and>
   line_events sample_platform ''{oops'' = [] \<and>
   JSON_parse sample_platform ''{}'' = Some (JObj []) \<and>
   line_events sample_platform ''{}'' = [JObj []] \<and>
   JSON_parse sample_platform ''0'' = Some (JNum ''0'') \<and>
   line_events sample_platform ''0'' = [] \<and>
   readEvents sample_platform
     \<lparr>events_file = Some (join [CHR 0x0A] [''{}'', ''{oops'', ''{}'', '''']),
      append_fault = None, read_fault = None\<rparr> = Inr [JObj [], JObj []]"
proof -
  let ?ls = "[''{}'', ''{oops'', ''{}'', '''']"
  let ?fs = "\<lparr>events_file = Some (join [CHR 0x0A] ?ls), append_fault = None, read_fault = None\<rparr>"
  have a: "read_fault ?fs = None \<and> events_file ?fs = Some (join [CHR 0x0A] ?ls) \<and>
      (\<forall>l\<in>set ?ls. CHR 0x0A \<notin> set l)"
    by simp
  have j: "join [CHR 0x0A] ?ls = ''{}'' @ [CHR 0x0A] @ ''{oops'' @ [CHR 0x0A] @ ''{}'' @ [CHR 0x0A]"
    by simp
  have c: "JSON_parse sample_platform ''{oops'' = None"
    "JSON_parse sample_platform ''{}'' = Some (JObj [])"
    by (simp_all add: sample_platform_def)
  note t1 = readEvents_skips_malformed_lines [of ?fs ?ls sample_platform "''{oops''" "[]" "JObj []" "''''"]
  note t2 = readEvents_skips_malformed_lines [of ?fs ?ls sample_platform "''{}''" "[]" "JObj []" "''''"]
  from t1 a have rd: "readEvents sample_platform ?fs = Inr (concat (map (line_events sample_platform) ?ls))"
    by blast
  from t1 c have l1: "line_events sample_platform ''{oops'' = []"
    by blast
  from t2 c have l2: "line_events sample_platform ''{}'' = [JObj []]"
    by simp
  have c0: "JSON_parse sample_platform ''0'' = Some (JNum ''0'')"
    by (simp add: sample_platform_def)
  note t3 = readEvents_skips_malformed_lines [of ?fs ?ls sample_platform "''0''" "[]" "JNum ''0''" "''''"]
  from t3 c0 have l0: "line_events sample_platform ''0'' = []"
    by simp
  have l3: "line_events sample_platform '''' = []"
    by (simp add: line_events_def)
  from rd l1 l2 l3 have "readEvents sample_platform ?fs = Inr [JObj [], JObj []]"
    by simp
  moreover have "CHR 0x0A \<notin> set ''{}'' \<and> CHR 0x0A \<notin> set ''{oops'' \<and> CHR 0x0A \<notin> set ''''"
    by simp
  ultimately show ?thesis
    using a j c c0 l0 l1 l2 by blast
qed

text \<open>
  The claim as stated fails for a line that parses to a falsy value: the line \<^verbatim>\<open>0\<close> parses
  as JSON, and its value is not in the list \<open>readEvents\<close> returns.
\<close>

theorem readEvents_skips_malformed_lines_counterexample:
  "JSON_parse sample_platform ''0'' = Some (JNum ''0'') \<and>
   readEvents sample_platform
     \<lparr>events_file = Some (''0'' @ [CHR 0x0A] @ ''{}'' @ [CHR 0x0A]),
      append_fault = None, read_fault = None\<rparr> = Inr [JObj []]"
  by (simp add: readEvents_def readFile_def sample_platform_def)

section \<open>The report\<close>

lemma ToPropertyKey_error: "ToPropertyKey v = Inl err \<Longrightarrow> err = TypeError"
proof (induction v rule: ToPropertyKey.induct)
  case (6 xs)
  from "6.prems" have "collect (map (\<lambda>x. if nullish x then Inr '''' else ToPropertyKey x) xs) = Inl err"
    by (simp split: sum.splits)
  from collect_error [OF this] obtain x where "x \<in> set xs" "\<not> nullish x" "ToPropertyKey x = Inl err"
    by (auto split: if_splits)
  with "6.IH" show ?case by blast
qed (auto split: if_splits)

lemma campaign_key_error: "campaign_key e = Inl err \<Longrightarrow> err = TypeError"
  by (auto simp: campaign_key_def ToPropertyKey_error split: if_splits sum.splits)

lemma summarize_loop_Cons:
  "summarize_loop t u (e # es) =
     (case campaign_key e of
        Inl err \<Rightarrow> Inl err
      | Inr c \<Rightarrow>
          summarize_loop
            (AList.update c ((case map_of t c of Some n \<Rightarrow> n | None \<Rightarrow> 0) + 1) t)
            (AList.update c (Set_add (case map_of u c of Some s \<Rightarrow> s | None \<Rightarrow> []) (field e ''lead_id'')) u)
            es)"
  by (simp add: campaign_key_def split: sum.splits)

lemma summarize_loop_error:
  "\<exists>e\<in>set es. campaign_key e = Inl TypeError \<Longrightarrow> summarize_loop t u es = Inl TypeError"
proof (induction es arbitrary: t u)
  case Nil
  then show ?case by simp
next
  case (Cons e es)
  show ?case
  proof (cases "campaign_key e")
    case (Inl err)
    then show ?thesis
      using campaign_key_error [OF Inl] by (simp add: summarize_loop_Cons del: summarize_loop.simps)
  next
    case (Inr c)
    with Cons.prems have "\<exists>e\<in>set es. campaign_key e = Inl TypeError" by auto
    from Cons.IH [OF this] Inr show ?thesis
      by (simp add: summarize_loop_Cons del: summarize_loop.simps)
  qed
qed

lemma summarize_loop_returns:
  "\<forall>e\<in>set es. campaign_key e \<noteq> Inl TypeError \<Longrightarrow> \<exists>t' u'. summarize_loop t u es = Inr (t', u')"
proof (induction es arbitrary: t u)
  case Nil
  then show ?case by simp
next
  case (Cons e es)
  from Cons.prems obtain c where c: "campaign_key e = Inr c"
    using campaign_key_error [of e] by (cases "campaign_key e") auto
  from Cons.prems have "\<forall>e\<in>set es. campaign_key e \<noteq> Inl TypeError" by simp
  from Cons.IH [OF this] c show ?case
    by (simp add: summarize_loop_Cons del: summarize_loop.simps)
qed

lemma summarize_loop_totals:
  "summarize_loop t u es = Inr (t', u') \<Longrightarrow>
     map_of t' c =
       (if filter (\<lambda>e. campaign_key e = Inr c) es = [] then map_of t c
        else Some ((case map_of t c of Some n \<Rightarrow> n | None \<Rightarrow> 0) +
                   length (filter (\<lambda>e. campaign_key e = Inr c) es)))"
proof (induction es arbitrary: t u)
  case Nil
  then show ?case by simp
next
  case (Cons x es)
  from Cons.prems obtain k where k: "campaign_key x = Inr k"
    by (cases "campaign_key x") (auto simp: summarize_loop_Cons simp del: summarize_loop.simps)
  with Cons.prems have "summarize_loop
      (AList.update k ((case map_of t k of Some n \<Rightarrow> n | None \<Rightarrow> 0) + 1) t)
      (AList.update k (Set_add (case map_of u k of Some s \<Rightarrow> s | None \<Rightarrow> []) (field x ''lead_id'')) u)
      es = Inr (t', u')"
    by (simp add: summarize_loop_Cons del: summarize_loop.simps)
  from Cons.IH [OF this] k show ?case
    by (auto simp: update_conv')
qed

lemma summarize_loop_uniques:
  "summarize_loop t u es = Inr (t', u') \<Longrightarrow>
     map_of u' c =
       (if leads_of es c = [] then map_of u c
        else Some (foldl Set_add (case map_of u c of Some s \<Rightarrow> s | None \<Rightarrow> []) (leads_of es c)))"
proof (induction es arbitrary: t u)
  case Nil
  then show ?case by (simp add: leads_of_def)
next
  case (Cons x es)
  from Cons.prems obtain k where k: "campaign_key x = Inr k"
    by (cases "campaign_key x") (auto simp: summarize_loop_Cons simp del: summarize_loop.simps)
  with Cons.prems have "summarize_loop
      (AList.update k ((case map_of t k of Some n \<Rightarrow> n | None \<Rightarrow> 0) + 1) t)
      (AList.update k (Set_add (case map_of u k of Some s \<Rightarrow> s | None \<Rightarrow> []) (field x ''lead_id'')) u)
      es = Inr (t', u')"
    by (simp add: summarize_loop_Cons del: summarize_loop.simps)
  from Cons.IH [OF this] k show ?case
    by (auto simp: update_conv' leads_of_def)
qed

lemma summarize_loop_keys:
  "summarize_loop t u es = Inr (t', u') \<Longrightarrow>
     fst ` set t' = fst ` set t \<union> {c. \<exists>e\<in>set es. campaign_key e = Inr c} \<and>
     (distinct (map fst t) \<longrightarrow> distinct (map fst t'))"
proof (induction es arbitrary: t u)
  case Nil
  then show ?case by simp
next
  case (Cons x es)
  from Cons.prems obtain k where k: "campaign_key x = Inr k"
    by (cases "campaign_key x") (auto simp: summarize_loop_Cons simp del: summarize_loop.simps)
  with Cons.prems have "summarize_loop
      (AList.update k ((case map_of t k of Some n \<Rightarrow> n | None \<Rightarrow> 0) + 1) t)
      (AList.update k (Set_add (case map_of u k of Some s \<Rightarrow> s | None \<Rightarrow> []) (field x ''lead_id'')) u)
      es = Inr (t', u')"
    by (simp add: summarize_loop_Cons del: summarize_loop.simps)
  from Cons.IH [OF this] k show ?case
    by (auto simp: dom_update distinct_update)
qed

lemma length_Set_add_fold:
  "length (foldl Set_add s vs) =
     length s + card (set (filter is_primitive vs) - set s) + length (filter (\<lambda>v. \<not> is_primitive v) vs)"
proof (induction vs arbitrary: s)
  case Nil
  show ?case by simp
next
  case (Cons v vs)
  let ?P = "set (filter is_primitive vs)"
  show ?case
  proof (cases "is_primitive v")
    case False
    then have "?P - (set s \<union> {v}) = ?P - set s" by auto
    with False Cons [of "s @ [v]"] show ?thesis
      by (simp add: Set_add_def)
  next
    case True
    show ?thesis
    proof (cases "v \<in> set s")
      case True
      then have "insert v ?P - set s = ?P - set s" by auto
      with True \<open>is_primitive v\<close> Cons [of s] show ?thesis
        by (simp add: Set_add_def)
    next
      case False
      then have "insert v ?P - set s = insert v (?P - (set s \<union> {v}))" by auto
      moreover have "v \<notin> ?P - (set s \<union> {v})" by simp
      moreover have "finite (?P - (set s \<union> {v}))" by simp
      ultimately have "card (insert v ?P - set s) = Suc (card (?P - (set s \<union> {v})))"
        by simp
      with False \<open>is_primitive v\<close> Cons [of "s @ [v]"] show ?thesis
        by (simp add: Set_add_def)
    qed
  qed
qed

lemma length_Set_add_leads: "length (foldl Set_add [] vs) = distinct_leads vs"
  by (simp add: length_Set_add_fold distinct_leads_def)

lemma distinct_leads_bounds: "distinct_leads vs \<le> length vs \<and> (vs \<noteq> [] \<longrightarrow> 1 \<le> distinct_leads vs)"
proof
  have "card (set (filter is_primitive vs)) \<le> length (filter is_primitive vs)"
    by (rule card_length)
  moreover have "length (filter is_primitive vs) + length (filter (\<lambda>v. \<not> is_primitive v) vs) = length vs"
    by (rule sum_length_filter_compl)
  ultimately show "distinct_leads vs \<le> length vs"
    by (simp add: distinct_leads_def)
  show "vs \<noteq> [] \<longrightarrow> 1 \<le> distinct_leads vs"
  proof
    assume "vs \<noteq> []"
    then obtain v where v: "v \<in> set vs" by (cases vs) auto
    show "1 \<le> distinct_leads vs"
    proof (cases "is_primitive v")
      case True
      with v have "set (filter is_primitive vs) \<noteq> {}" by auto
      then have "0 < card (set (filter is_primitive vs))"
        by (simp add: card_gt_0_iff)
      then show ?thesis unfolding distinct_leads_def by linarith
    next
      case False
      with v have "filter (\<lambda>v. \<not> is_primitive v) vs \<noteq> []"
        by (auto simp: filter_empty_conv)
      then have "0 < length (filter (\<lambda>v. \<not> is_primitive v) vs)" by simp
      then show ?thesis unfolding distinct_leads_def by linarith
    qed
  qed
qed

lemma distinct_leads_mset: "mset vs = mset vs' \<Longrightarrow> distinct_leads vs = distinct_leads vs'"
proof -
  assume eq: "mset vs = mset vs'"
  have "set (filter is_primitive vs) = set (filter is_primitive vs')"
    using mset_eq_setD [of "filter is_primitive vs" "filter is_primitive vs'"] eq by simp
  moreover have "length (filter (\<lambda>v. \<not> is_primitive v) vs) = length (filter (\<lambda>v. \<not> is_primitive v) vs')"
    using mset_eq_length [of "filter (\<lambda>v. \<not> is_primitive v) vs" "filter (\<lambda>v. \<not> is_primitive v) vs'"] eq
    by simp
  ultimately show ?thesis by (simp add: distinct_leads_def)
qed

lemma report_row_mset: "mset list = mset list' \<Longrightarrow> report_row list c = report_row list' c"
proof -
  assume eq: "mset list = mset list'"
  have "length (filter (\<lambda>e. campaign_key e = Inr c) list) = length (filter (\<lambda>e. campaign_key e = Inr c) list')"
    using mset_eq_length [of "filter (\<lambda>e. campaign_key e = Inr c) list" "filter (\<lambda>e. campaign_key e = Inr c) list'"] eq
    by simp
  moreover from eq have "mset (leads_of list c) = mset (leads_of list' c)"
    by (simp add: leads_of_def)
  then have "distinct_leads (leads_of list c) = distinct_leads (leads_of list' c)"
    by (rule distinct_leads_mset)
  ultimately show ?thesis by (simp add: report_row_def)
qed

lemma mset_Object_keys: "mset (Object_keys obj) = mset (map fst obj)"
  by (simp add: Object_keys_def Let_def)

lemma summarize_result:
  "summarize list = Inr rows \<Longrightarrow>
     \<exists>keys. rows = map (report_row list) keys \<and> distinct keys \<and>
            set keys = {c. \<exists>e\<in>set list. campaign_key e = Inr c}"
proof -
  assume a: "summarize list = Inr rows"
  then obtain t u where loop: "summarize_loop [] [] list = Inr (t, u)"
    by (auto simp: summarize_def split: sum.splits)
  define total_of where "total_of = (\<lambda>c. case map_of t c of Some n \<Rightarrow> n | None \<Rightarrow> 0)"
  define keys where "keys = sort_key (\<lambda>c. - int (total_of c)) (Object_keys t)"
  have tot: "total_of c = length (filter (\<lambda>e. campaign_key e = Inr c) list)" for c
    using summarize_loop_totals [OF loop, of c] by (simp add: total_of_def)
  have uni: "(case map_of u c of Some s \<Rightarrow> length s | None \<Rightarrow> 0) = distinct_leads (leads_of list c)" for c
    using summarize_loop_uniques [OF loop, of c]
    by (simp add: length_Set_add_leads) (simp add: distinct_leads_def)
  from a loop have rows: "rows = map (\<lambda>c. \<lparr>campaign = c, total' = total_of c,
      unique = (case map_of u c of Some s \<Rightarrow> length s | None \<Rightarrow> 0)\<rparr>) keys"
    by (simp add: summarize_def keys_def total_of_def)
  have "rows = map (report_row list) keys"
    unfolding rows by (simp add: tot uni report_row_def)
  moreover from summarize_loop_keys [OF loop] have "distinct (map fst t)"
    and ks: "fst ` set t = {c. \<exists>e\<in>set list. campaign_key e = Inr c}"
    by simp_all
  have "mset keys = mset (map fst t)"
    by (simp add: keys_def mset_Object_keys)
  with \<open>distinct (map fst t)\<close> ks have "distinct keys" "set keys = {c. \<exists>e\<in>set list. campaign_key e = Inr c}"
    by (metis mset_eq_imp_distinct_iff, metis mset_eq_setD set_map)
  ultimately show ?thesis by blast
qed

lemma summarize_error:
  "summarize list = Inl err \<longleftrightarrow> err = TypeError \<and> (\<exists>e\<in>set list. campaign_key e = Inl TypeError)"
proof (cases "\<exists>e\<in>set list. campaign_key e = Inl TypeError")
  case True
  from summarize_loop_error [OF this] True show ?thesis
    by (auto simp: summarize_def)
next
  case False
  then have "\<forall>e\<in>set list. campaign_key e \<noteq> Inl TypeError" by simp
  from summarize_loop_returns [OF this, of "[]" "[]"] obtain t u
    where "summarize_loop [] [] list = Inr (t, u)" by blast
  with False show ?thesis
    by (simp add: summarize_def)
qed

lemma counts_for_report:
  "counts_for (map (report_row list) keys) c =
     (if c \<in> set keys then Some (total' (report_row list c), unique (report_row list c)) else None)"
  by (induction keys) (auto simp: counts_for_def report_row_def)

lemma summarize_sample:
  "summarize sample_events =
     Inr [\<lparr>campaign = ''a'', total' = 3, unique = 2\<rparr>, \<lparr>campaign = ''b'', total' = 1, unique = 1\<rparr>]"
  by code_simp

lemma summarize_sample_permuted:
  "summarize sample_events_permuted =
     Inr [\<lparr>campaign = ''a'', total' = 3, unique = 2\<rparr>, \<lparr>campaign = ''b'', total' = 1, unique = 1\<rparr>]"
  by code_simp

text \<open>
  C9. For every list of events and every permutation of it, \<open>summarize\<close> either fails on
  both (an event whose campaign cannot be a key is in both) or returns rows on both, and
  then the two reports have the same rows up to their order: each campaign has the same
  total and the same unique count in both.
\<close>

theorem summarize_order_independent:
  assumes "mset list = mset list'"
  shows "(summarize list = Inl TypeError \<and> summarize list' = Inl TypeError) \<or>
         (\<exists>rows rows'. summarize list = Inr rows \<and> summarize list' = Inr rows' \<and>
            mset rows = mset rows' \<and> (\<forall>c. counts_for rows c = counts_for rows' c))"
proof (cases "\<exists>e\<in>set list. campaign_key e = Inl TypeError")
  case True
  moreover from assms have "set list = set list'" by (rule mset_eq_setD)
  ultimately show ?thesis
    using summarize_error [of list TypeError] summarize_error [of list' TypeError] by simp
next
  case False
  from assms have sets: "set list = set list'" by (rule mset_eq_setD)
  from False obtain rows where rows: "summarize list = Inr rows"
    using summarize_error [of list] by (cases "summarize list") auto
  from False sets obtain rows' where rows': "summarize list' = Inr rows'"
    using summarize_error [of list'] by (cases "summarize list'") auto
  from summarize_result [OF rows] obtain keys
    where keys: "rows = map (report_row list) keys" "distinct keys"
      "set keys = {c. \<exists>e\<in>set list. campaign_key e = Inr c}" by blast
  from summarize_result [OF rows'] obtain keys'
    where keys': "rows' = map (report_row list') keys'" "distinct keys'"
      "set keys' = {c. \<exists>e\<in>set list'. campaign_key e = Inr c}" by blast
  have same: "report_row list' = report_row list"
    using report_row_mset [OF assms] by (simp add: fun_eq_iff)
  from keys keys' sets have "set keys = set keys'" by simp
  with keys(2) keys'(2) have "mset keys = mset keys'"
    by (simp add: set_eq_iff_mset_eq_distinct)
  then have "mset rows = mset rows'"
    by (simp add: keys(1) keys'(1) same)
  moreover have "counts_for rows c = counts_for rows' c" for c
    using \<open>set keys = set keys'\<close> by (simp add: keys(1) keys'(1) same counts_for_report)
  ultimately show ?thesis
    using rows rows' by blast
qed

theorem summarize_order_independent_witness:
  "mset sample_events = mset sample_events_permuted \<and>
   summarize sample_events =
     Inr [\<lparr>campaign = ''a'', total' = 3, unique = 2\<rparr>, \<lparr>campaign = ''b'', total' = 1, unique = 1\<rparr>] \<and>
   summarize sample_events_permuted =
     Inr [\<lparr>campaign = ''a'', total' = 3, unique = 2\<rparr>, \<lparr>campaign = ''b'', total' = 1, unique = 1\<rparr>] \<and>
   counts_for [\<lparr>campaign = ''a'', total' = 3, unique = 2\<rparr>, \<lparr>campaign = ''b'', total' = 1, unique = 1\<rparr>] ''a'' =
     Some (3, 2)"
proof -
  have m: "mset sample_events = mset sample_events_permuted"
    by (simp add: sample_events_def sample_events_permuted_def)
  have c: "counts_for [\<lparr>campaign = ''a'', total' = 3, unique = 2\<rparr>, \<lparr>campaign = ''b'', total' = 1, unique = 1\<rparr>] ''a'' =
     Some (3, 2)"
    by (simp add: counts_for_def)
  from summarize_order_independent [OF m] m c summarize_sample summarize_sample_permuted
  show ?thesis by simp
qed

text \<open>
  C10. Every row that \<open>summarize\<close> returns has a total of at least 1, a unique count of at
  least 1 and a unique count no greater than its total; its campaign is the key of at
  least one event of the list, and its total is the number of events with that key.
\<close>

theorem summarize_row_bounds:
  assumes "summarize list = Inr rows" and "r \<in> set rows"
  shows "1 \<le> total' r \<and> 1 \<le> unique r \<and> unique r \<le> total' r \<and>
         (\<exists>e\<in>set list. campaign_key e = Inr (campaign r)) \<and>
         total' r = length (filter (\<lambda>e. campaign_key e = Inr (campaign r)) list)"
proof -
  from summarize_result [OF assms(1)] obtain keys
    where keys: "rows = map (report_row list) keys"
      "set keys = {c. \<exists>e\<in>set list. campaign_key e = Inr c}" by blast
  with assms(2) obtain c where c: "r = report_row list c" "\<exists>e\<in>set list. campaign_key e = Inr c"
    by auto
  let ?es = "filter (\<lambda>e. campaign_key e = Inr c) list"
  from c(2) have ne: "?es \<noteq> []"
    by (auto simp: filter_empty_conv)
  have len: "length (leads_of list c) = length ?es"
    by (simp add: leads_of_def)
  with ne have "leads_of list c \<noteq> []" by auto
  with distinct_leads_bounds [of "leads_of list c"] len
  have "1 \<le> distinct_leads (leads_of list c)" "distinct_leads (leads_of list c) \<le> length ?es"
    by simp_all
  moreover from ne have "1 \<le> length ?es"
    by (cases ?es) simp_all
  ultimately show ?thesis
    using c by (simp add: report_row_def)
qed

theorem summarize_row_bounds_witness:
  "summarize sample_events =
     Inr [\<lparr>campaign = ''a'', total' = 3, unique = 2\<rparr>, \<lparr>campaign = ''b'', total' = 1, unique = 1\<rparr>] \<and>
   \<lparr>campaign = ''a'', total' = 3, unique = 2\<rparr> \<in>
     set [\<lparr>campaign = ''a'', total' = 3, unique = 2\<rparr>, \<lparr>campaign = ''b'', total' = 1, unique = 1\<rparr>] \<and>
   length (filter (\<lambda>e. campaign_key e = Inr ''a'') sample_events) = 3"
proof -
  have "\<lparr>campaign = ''a'', total' = 3, unique = 2\<rparr> \<in>
     set [\<lparr>campaign = ''a'', total' = 3, unique = 2\<rparr>, \<lparr>campaign = ''b'', total' = 1, unique = 1\<rparr>]"
    by simp
  from summarize_row_bounds [OF summarize_sample this] summarize_sample
  show ?thesis by simp
qed

end
